theory Spec2Isabelle
  imports Complex_Main "HOL-Library.AList"
begin

section \<open>Observable: the cold push stream of \<^verbatim>\<open>observable.ts\<close>\<close>

text \<open>
  \<^verbatim>\<open>observable(subscribe)\<close> returns an object whose \<^verbatim>\<open>subscribe(observer)\<close> keeps four
  local variables (\<^verbatim>\<open>teardownRef\<close>, \<^verbatim>\<open>isDone\<close>, \<^verbatim>\<open>unsubscribed\<close>,
  \<^verbatim>\<open>teardownImmediately\<close>), hands the producer a wrapped observer and returns the
  \<^verbatim>\<open>unsubscribe\<close> closure. The four variables are the fields of a record that every
  closure takes and returns. The callbacks of the downstream observer and the teardown
  logic are code of the caller: each invocation is recorded, in order, in \<open>effects\<close>,
  and they are taken not to call back into the subscription while they run.
\<close>

text \<open>
  \<^verbatim>\<open>TeardownLogic = Unsubscribable | UnsubscribeFn | void\<close>: what the producer returns.
\<close>

datatype teardownLogic = UnsubscribeFn | Unsubscribable | Void

datatype ('v, 'e) effect =
    ObserverNext 'v
  | ObserverError 'e
  | ObserverComplete
  | TeardownFn
  | TeardownUnsubscribe

text \<open>
  The downstream observer: each of its three callbacks is optional
  (\<^verbatim>\<open>observer.next?.(value)\<close>).
\<close>

record observer =
  has_next :: bool
  has_error :: bool
  has_complete :: bool

record ('v, 'e) subscription =
  teardownRef :: "teardownLogic option"
  isDone :: bool
  unsubscribed :: bool
  teardownImmediately :: bool
  effects :: "('v, 'e) effect list"

definition initial :: "('v, 'e) subscription" where
  "initial = \<lparr>teardownRef = None, isDone = False, unsubscribed = False,
     teardownImmediately = False, effects = []\<rparr>"

definition record_effect :: "('v, 'e) effect \<Rightarrow> ('v, 'e) subscription \<Rightarrow> ('v, 'e) subscription" where
  "record_effect x s = s\<lparr>effects := effects s @ [x]\<rparr>"

text \<open>
  \<^verbatim>\<open>function unsubscribe()\<close>: while \<^verbatim>\<open>teardownRef === null\<close> it only sets the deferred
  flag; afterwards it runs the teardown logic unless \<^verbatim>\<open>unsubscribed\<close> is already set.
\<close>

definition unsubscribe :: "('v, 'e) subscription \<Rightarrow> ('v, 'e) subscription" where
  "unsubscribe s =
     (case teardownRef s of
        None \<Rightarrow> s\<lparr>teardownImmediately := True\<rparr>
      | Some t \<Rightarrow>
          if unsubscribed s then s
          else (case t of
                  UnsubscribeFn \<Rightarrow> record_effect TeardownFn (s\<lparr>unsubscribed := True\<rparr>)
                | Unsubscribable \<Rightarrow> record_effect TeardownUnsubscribe (s\<lparr>unsubscribed := True\<rparr>)
                | Void \<Rightarrow> s\<lparr>unsubscribed := True\<rparr>))"

text \<open>The three methods of the observer handed to the producer.\<close>

definition obs_next :: "observer \<Rightarrow> 'v \<Rightarrow> ('v, 'e) subscription \<Rightarrow> ('v, 'e) subscription" where
  "obs_next ob v s =
     (if isDone s then s
      else if has_next ob then record_effect (ObserverNext v) s else s)"

definition obs_error :: "observer \<Rightarrow> 'e \<Rightarrow> ('v, 'e) subscription \<Rightarrow> ('v, 'e) subscription" where
  "obs_error ob e s =
     (if isDone s then s
      else (let s1 = s\<lparr>isDone := True\<rparr>;
                s2 = (if has_error ob then record_effect (ObserverError e) s1 else s1)
            in unsubscribe s2))"

definition obs_complete :: "observer \<Rightarrow> ('v, 'e) subscription \<Rightarrow> ('v, 'e) subscription" where
  "obs_complete ob s =
     (if isDone s then s
      else (let s1 = s\<lparr>isDone := True\<rparr>;
                s2 = (if has_complete ob then record_effect ObserverComplete s1 else s1)
            in unsubscribe s2))"

text \<open>One call of the producer on the wrapped observer.\<close>

datatype ('v, 'e) notification = NextN 'v | ErrorN 'e | CompleteN

fun notify :: "observer \<Rightarrow> ('v, 'e) subscription \<Rightarrow> ('v, 'e) notification \<Rightarrow> ('v, 'e) subscription" where
  "notify ob s (NextN v) = obs_next ob v s"
| "notify ob s (ErrorN e) = obs_error ob e s"
| "notify ob s CompleteN = obs_complete ob s"

text \<open>
  \<^verbatim>\<open>subscribe(observer)\<close>. The producer function runs first, with \<^verbatim>\<open>teardownRef\<close> still
  \<^verbatim>\<open>null\<close>: \<open>sync\<close> lists the calls it makes on the wrapped observer before it returns,
  \<open>td\<close> is the teardown logic it returns. Then \<^verbatim>\<open>teardownRef\<close> is assigned and a deferred
  unsubscribe is carried out.
\<close>

definition attach :: "teardownLogic \<Rightarrow> ('v, 'e) subscription \<Rightarrow> ('v, 'e) subscription" where
  "attach td s =
     (let s1 = s\<lparr>teardownRef := Some td\<rparr>
      in if teardownImmediately s1 then unsubscribe s1 else s1)"

definition subscribe :: "observer \<Rightarrow> ('v, 'e) notification list \<Rightarrow> teardownLogic \<Rightarrow> ('v, 'e) subscription" where
  "subscribe ob sync td = attach td (foldl (notify ob) initial sync)"

text \<open>
  After \<^verbatim>\<open>subscribe\<close> has returned, the producer may go on calling the wrapped observer
  and the consumer may call the returned \<^verbatim>\<open>unsubscribe\<close>, in any order.
\<close>

datatype ('v, 'e) action = Producer "('v, 'e) notification" | Unsubscribe

fun act :: "observer \<Rightarrow> ('v, 'e) subscription \<Rightarrow> ('v, 'e) action \<Rightarrow> ('v, 'e) subscription" where
  "act ob s (Producer n) = notify ob s n"
| "act ob s Unsubscribe = unsubscribe s"

definition lifecycle ::
  "observer \<Rightarrow> ('v, 'e) notification list \<Rightarrow> teardownLogic \<Rightarrow> ('v, 'e) action list \<Rightarrow> ('v, 'e) subscription" where
  "lifecycle ob sync td acts = foldl (act ob) (subscribe ob sync td) acts"

text \<open>Projections of the effect log.\<close>

fun is_callback :: "('v, 'e) effect \<Rightarrow> bool" where
  "is_callback (ObserverNext v) = True"
| "is_callback (ObserverError e) = True"
| "is_callback ObserverComplete = True"
| "is_callback TeardownFn = False"
| "is_callback TeardownUnsubscribe = False"

definition callbacks :: "('v, 'e) subscription \<Rightarrow> ('v, 'e) effect list" where
  "callbacks s = filter is_callback (effects s)"

definition teardowns :: "('v, 'e) subscription \<Rightarrow> nat" where
  "teardowns s = length (filter (\<lambda>x. \<not> is_callback x) (effects s))"

fun terminal :: "('v, 'e) notification \<Rightarrow> bool" where
  "terminal (NextN v) = False"
| "terminal (ErrorN e) = True"
| "terminal CompleteN = True"

fun requests_teardown :: "('v, 'e) action \<Rightarrow> bool" where
  "requests_teardown (Producer n) = terminal n"
| "requests_teardown Unsubscribe = True"

fun fires_terminal :: "('v, 'e) action \<Rightarrow> bool" where
  "fires_terminal (Producer n) = terminal n"
| "fires_terminal Unsubscribe = False"

section \<open>JavaScript values and thrown errors\<close>

text \<open>
  The values that cross the wire are what \<^verbatim>\<open>JSON.parse\<close> builds, and \<^verbatim>\<open>undefined\<close> for a
  property that is absent. A number is a double: \<^verbatim>\<open>NaN\<close>, an infinity or a finite value.
\<close>

datatype js_number = NaN | PosInfinity | NegInfinity | Finite rat

datatype js_value =
    JUndefined
  | JNull
  | JBoolean bool
  | JNumber js_number
  | JString string
  | JArray "js_value list"
  | JObject "(string \<times> js_value) list"

fun js_typeof :: "js_value \<Rightarrow> string" where
  "js_typeof JUndefined = ''undefined''"
| "js_typeof JNull = ''object''"
| "js_typeof (JBoolean b) = ''boolean''"
| "js_typeof (JNumber n) = ''number''"
| "js_typeof (JString s) = ''string''"
| "js_typeof (JArray xs) = ''object''"
| "js_typeof (JObject kvs) = ''object''"

fun isArray :: "js_value \<Rightarrow> bool" where
  "isArray (JArray xs) = True"
| "isArray v = False"

text \<open>\<^verbatim>\<open>!obj\<close> is the negation of \<open>truthy\<close>.\<close>

fun truthy :: "js_value \<Rightarrow> bool" where
  "truthy JUndefined = False"
| "truthy JNull = False"
| "truthy (JBoolean b) = b"
| "truthy (JNumber n) = (n \<noteq> NaN \<and> n \<noteq> Finite 0)"
| "truthy (JString s) = (s \<noteq> [])"
| "truthy (JArray xs) = True"
| "truthy (JObject kvs) = True"

text \<open>
  \<^verbatim>\<open>isNaN(obj)\<close>. In \<^verbatim>\<open>assertIsRequestId\<close> it stands behind
  \<^verbatim>\<open>typeof obj === 'number' &&\<close>, so it is evaluated on numbers only; the second
  equation is never reached from there.
\<close>

fun isNaN :: "js_value \<Rightarrow> bool" where
  "isNaN (JNumber n) = (n = NaN)"
| "isNaN v = False"

text \<open>Reading a property: \<^verbatim>\<open>const { method, params, id, jsonrpc } = obj\<close>.\<close>

fun property :: "js_value \<Rightarrow> string \<Rightarrow> js_value" where
  "property (JObject kvs) k = (case map_of kvs k of None \<Rightarrow> JUndefined | Some v \<Rightarrow> v)"
| "property v k = JUndefined"

text \<open>
  What a \<^verbatim>\<open>throw\<close> carries: \<^verbatim>\<open>new Error(message)\<close>, \<^verbatim>\<open>new TRPCError({code, message, cause})\<close>
  (\<open>message\<close> and \<open>cause\<close> are optional), or any other value.
\<close>

datatype trpc_code = BAD_REQUEST | INTERNAL_SERVER_ERROR | PARSE_ERROR

datatype 'a thrown =
    Error string
  | TRPCError trpc_code "string option" "'a thrown option"
  | ThrownValue 'a

text \<open>
  Modelled from the spec: \<^verbatim>\<open>getErrorFromUnknown\<close> of \<^verbatim>\<open>internals/errors\<close> is not among the
  sources. The spec: any thrown value is normalised into a canonical error carrying a code of
  the taxonomy plus the original cause; an error that is already shaped keeps its code.
\<close>

fun getErrorFromUnknown :: "'a thrown \<Rightarrow> 'a thrown" where
  "getErrorFromUnknown (TRPCError c m cause) = TRPCError c m cause"
| "getErrorFromUnknown e = TRPCError INTERNAL_SERVER_ERROR None (Some e)"

section \<open>The postMessage handler: parsing an envelope\<close>

text \<open>An assertion function returns \<open>None\<close> when it passes and the thrown error otherwise.\<close>

definition assertIsObject :: "js_value \<Rightarrow> js_value thrown option" where
  "assertIsObject obj =
     (if js_typeof obj \<noteq> ''object'' \<or> isArray obj \<or> \<not> truthy obj
      then Some (Error ''Not an object'') else None)"

definition assertIsProcedureType :: "js_value \<Rightarrow> js_value thrown option" where
  "assertIsProcedureType obj =
     (if obj \<noteq> JString ''query'' \<and> obj \<noteq> JString ''subscription'' \<and> obj \<noteq> JString ''mutation''
      then Some (Error ''Invalid procedure type'') else None)"

definition assertIsRequestId :: "js_value \<Rightarrow> js_value thrown option" where
  "assertIsRequestId obj =
     (if obj \<noteq> JNull \<and> js_typeof obj = ''number'' \<and> isNaN obj \<and> js_typeof obj \<noteq> ''string''
      then Some (Error ''Invalid request id'') else None)"

definition assertIsString :: "js_value \<Rightarrow> js_value thrown option" where
  "assertIsString obj =
     (if js_typeof obj \<noteq> ''string'' then Some (Error ''Invalid string'') else None)"

definition assertIsJSONRPC2OrUndefined :: "js_value \<Rightarrow> js_value thrown option" where
  "assertIsJSONRPC2OrUndefined obj =
     (if js_typeof obj \<noteq> ''undefined'' \<and> obj \<noteq> JString ''2.0''
      then Some (Error ''Must be JSONRPC 2.0'') else None)"

datatype procedureType = Query | Mutation | Subscription

text \<open>
  \<^verbatim>\<open>TRPCRequest\<close>: the stop request has no \<^verbatim>\<open>params\<close>, the three others have a path and an
  input. The id is kept as the value it is: \<^verbatim>\<open>assertIsRequestId\<close> lets more through than
  numbers, strings and \<^verbatim>\<open>null\<close>.
\<close>

datatype request =
    Stop js_value
  | Call js_value procedureType string js_value

fun req_id :: "request \<Rightarrow> js_value" where
  "req_id (Stop i) = i"
| "req_id (Call i t p inp) = i"

definition procedureType_of :: "js_value \<Rightarrow> procedureType" where
  "procedureType_of m =
     (if m = JString ''query'' then Query
      else if m = JString ''mutation'' then Mutation else Subscription)"

text \<open>
  A statement that follows an assertion runs only when the assertion has not thrown.
\<close>

definition passing :: "'e option \<Rightarrow> 'e + 'a \<Rightarrow> 'e + 'a" where
  "passing assertion rest = (case assertion of Some e \<Rightarrow> Inl e | None \<Rightarrow> rest)"

text \<open>
  \<^verbatim>\<open>parseMessage(obj, transformer)\<close>; \<open>deserialize\<close> is \<^verbatim>\<open>transformer.input.deserialize\<close>,
  which may throw.
\<close>

definition parseMessage ::
  "js_value \<Rightarrow> (js_value \<Rightarrow> js_value thrown + js_value) \<Rightarrow> js_value thrown + request" where
  "parseMessage obj deserialize =
     passing (assertIsObject obj)
       (let method = property obj ''method''; params = property obj ''params'';
            id' = property obj ''id''; jsonrpc = property obj ''jsonrpc''
        in passing (assertIsRequestId id')
          (passing (assertIsJSONRPC2OrUndefined jsonrpc)
            (if method = JString ''subscription.stop'' then Inr (Stop id')
             else passing (assertIsProcedureType method)
               (passing (assertIsObject params)
                 (let rawInput = property params ''input''; path = property params ''path''
                  in passing (assertIsString path)
                    (case deserialize rawInput of
                       Inl e \<Rightarrow> Inl e
                     | Inr input \<Rightarrow>
                         Inr (Call id' (procedureType_of method)
                                (case path of JString p \<Rightarrow> p | _ \<Rightarrow> []) input)))))))"

section \<open>The postMessage handler: requests and subscriptions\<close>

text \<open>
  Modelled from the spec: the \<^verbatim>\<open>Subscription\<close> class of \<^verbatim>\<open>../subscription\<close> is not among
  the sources. The spec: an entity with lifecycle events \<^verbatim>\<open>data\<close>, \<^verbatim>\<open>error\<close>,
  \<^verbatim>\<open>destroy\<close> and explicit \<^verbatim>\<open>start()\<close> and \<^verbatim>\<open>destroy()\<close> operations. A Subscription
  object is a reference into a heap of objects; an object records whether it was started
  and destroyed and which handlers \<^verbatim>\<open>sub.on\<close> attached to it. The three handlers that
  \<^verbatim>\<open>handleRequest\<close> attaches are closures over the request, so the request stands for
  them.
\<close>

type_synonym sub_ref = nat

record sub_obj =
  started :: bool
  destroyed :: bool
  handlers :: "request option"

text \<open>
  \<^verbatim>\<open>TRPCResponse\<close>, the argument of \<^verbatim>\<open>respond\<close>: a result or an error for an id
  (\<^verbatim>\<open>null\<close> when no request can be named). The error is what \<^verbatim>\<open>router.getErrorShape\<close>
  returns.
\<close>

datatype result_payload = Data js_value | Started | Stopped

datatype 'shape response =
    Result js_value result_payload
  | Failure js_value 'shape

text \<open>
  The argument of \<^verbatim>\<open>router.getErrorShape\<close> and of \<^verbatim>\<open>opts.onError\<close>; \<open>shape_type = None\<close> is
  \<^verbatim>\<open>type: 'unknown'\<close>, \<open>shape_path = None\<close> is \<^verbatim>\<open>path: undefined\<close>. The context is
  \<^verbatim>\<open>undefined\<close> throughout this handler.
\<close>

record shape_opts =
  shape_error :: "js_value thrown"
  shape_type :: "procedureType option"
  shape_path :: "string option"
  shape_input :: js_value

text \<open>
  What the handler is given: the router's error formatter, whether \<^verbatim>\<open>opts.onError\<close> is
  defined, the input transformer, and the runtime's conversion of a value to a string
  inside a template literal.
\<close>

record 'shape handler_opts =
  getErrorShape :: "shape_opts \<Rightarrow> 'shape"
  has_onError :: bool
  deserialize :: "js_value \<Rightarrow> js_value thrown + js_value"
  toString :: "js_value \<Rightarrow> string"

text \<open>
  The state of one \<^verbatim>\<open>applyPMSHandler\<close>: the \<^verbatim>\<open>clientSubscriptions\<close> map (a JavaScript
  \<^verbatim>\<open>Map\<close> keeps insertion order, so it is a list of entries), the heap of Subscription
  objects, the responses posted so far, the calls of \<^verbatim>\<open>onError\<close>, and the requests on
  which \<^verbatim>\<open>handleRequest\<close> was called.
\<close>

record 'shape handler_state =
  clientSubscriptions :: "(js_value \<times> sub_ref) list"
  subscriptions :: "sub_ref \<Rightarrow> sub_obj"
  responses :: "'shape response list"
  reported :: "shape_opts list"
  handled :: "request list"

text \<open>
  \<^verbatim>\<open>Map\<close> compares a key that is an array or an object by identity, every other key by
  value. The id of a request is a value that \<^verbatim>\<open>JSON.parse\<close> has just built: when it is an
  array or an object it is a new object, identical to no key of the map, whatever its
  content. So \<^verbatim>\<open>get\<close> and \<^verbatim>\<open>has\<close> find nothing for it, \<^verbatim>\<open>set\<close> adds an entry and
  \<^verbatim>\<open>delete\<close> removes none. For the other ids \<^verbatim>\<open>set\<close> replaces the value of a key that
  is present, in place, and appends an entry otherwise.
\<close>

fun by_identity :: "js_value \<Rightarrow> bool" where
  "by_identity (JArray xs) = True"
| "by_identity (JObject kvs) = True"
| "by_identity v = False"

definition Map_get :: "(js_value \<times> sub_ref) list \<Rightarrow> js_value \<Rightarrow> sub_ref option" where
  "Map_get m k = (if by_identity k then None else map_of m k)"

definition Map_set :: "js_value \<Rightarrow> sub_ref \<Rightarrow> (js_value \<times> sub_ref) list \<Rightarrow> (js_value \<times> sub_ref) list" where
  "Map_set k v m = (if by_identity k then m @ [(k, v)] else AList.update k v m)"

definition Map_delete :: "js_value \<Rightarrow> (js_value \<times> sub_ref) list \<Rightarrow> (js_value \<times> sub_ref) list" where
  "Map_delete k m = (if by_identity k then m else AList.delete k m)"

definition respond :: "'shape response \<Rightarrow> 'shape handler_state \<Rightarrow> 'shape handler_state" where
  "respond json st = st\<lparr>responses := responses st @ [json]\<rparr>"

definition onError :: "'shape handler_opts \<Rightarrow> shape_opts \<Rightarrow> 'shape handler_state \<Rightarrow> 'shape handler_state" where
  "onError opts x st = (if has_onError opts then st\<lparr>reported := reported st @ [x]\<rparr> else st)"

text \<open>
  Both the \<^verbatim>\<open>'error'\<close> handler of a subscription and the \<^verbatim>\<open>catch\<close> block of
  \<^verbatim>\<open>handleRequest\<close> shape the error, report it and respond.
\<close>

definition respond_error ::
  "'shape handler_opts \<Rightarrow> js_value \<Rightarrow> procedureType \<Rightarrow> string \<Rightarrow> js_value \<Rightarrow> js_value thrown \<Rightarrow>
     'shape handler_state \<Rightarrow> 'shape handler_state" where
  "respond_error opts id' type path input cause st =
     (let x = \<lparr>shape_error = getErrorFromUnknown cause, shape_type = Some type,
                shape_path = Some path, shape_input = input\<rparr>
      in respond (Failure id' (getErrorShape opts x)) (onError opts x st))"

text \<open>The handlers attached by \<^verbatim>\<open>sub.on('data' | 'error' | 'destroy', ...)\<close>.\<close>

datatype sub_event = DataEvent js_value | ErrorEvent "js_value thrown" | DestroyEvent

fun handle_event ::
  "'shape handler_opts \<Rightarrow> request \<Rightarrow> sub_event \<Rightarrow> 'shape handler_state \<Rightarrow> 'shape handler_state" where
  "handle_event opts (Call id' type path input) (DataEvent d) st = respond (Result id' (Data d)) st"
| "handle_event opts (Call id' type path input) (ErrorEvent e) st = respond_error opts id' type path input e st"
| "handle_event opts (Call id' type path input) DestroyEvent st = respond (Result id' Stopped) st"
| "handle_event opts (Stop id') ev st = st"

text \<open>
  Modelled from the spec: a Subscription delivers an event to the handlers attached to it;
  \<^verbatim>\<open>destroy()\<close> marks the object destroyed and delivers the \<^verbatim>\<open>destroy\<close> event; \<^verbatim>\<open>start()\<close>
  starts the stream, whose events arrive later.
\<close>

definition emit :: "'shape handler_opts \<Rightarrow> sub_ref \<Rightarrow> sub_event \<Rightarrow> 'shape handler_state \<Rightarrow> 'shape handler_state" where
  "emit opts sub ev st =
     (case handlers (subscriptions st sub) of
        None \<Rightarrow> st
      | Some req \<Rightarrow> handle_event opts req ev st)"

definition destroy :: "'shape handler_opts \<Rightarrow> sub_ref \<Rightarrow> 'shape handler_state \<Rightarrow> 'shape handler_state" where
  "destroy opts sub st =
     emit opts sub DestroyEvent
       (st\<lparr>subscriptions := (subscriptions st)(sub := (subscriptions st sub)\<lparr>destroyed := True\<rparr>)\<rparr>)"

definition on :: "sub_ref \<Rightarrow> request \<Rightarrow> 'shape handler_state \<Rightarrow> 'shape handler_state" where
  "on sub req st =
     st\<lparr>subscriptions := (subscriptions st)(sub := (subscriptions st sub)\<lparr>handlers := Some req\<rparr>)\<rparr>"

definition start :: "sub_ref \<Rightarrow> 'shape handler_state \<Rightarrow> 'shape handler_state" where
  "start sub st =
     st\<lparr>subscriptions := (subscriptions st)(sub := (subscriptions st sub)\<lparr>started := True\<rparr>)\<rparr>"

text \<open>
  What the awaited calls of one \<^verbatim>\<open>handleRequest\<close> produce: \<^verbatim>\<open>callProcedure\<close> returns a
  value or a Subscription object or throws; \<^verbatim>\<open>sub.start()\<close> may throw.
\<close>

datatype outcome = Returned js_value | ReturnedSubscription sub_ref | Threw "js_value thrown"

record awaited =
  callProcedure :: outcome
  start_throws :: "js_value thrown option"

text \<open>
  \<^verbatim>\<open>handleRequest\<close> is an \<^verbatim>\<open>async\<close> function: a call runs up to its first \<^verbatim>\<open>await\<close> and
  the rest runs later, when the awaited promise has settled. A call for a request with
  id \<^verbatim>\<open>null\<close> throws before any \<^verbatim>\<open>await\<close>, so that the returned promise is rejected; a
  call for a stop request has no \<^verbatim>\<open>await\<close> and is complete when it returns; a call for
  any other request is suspended at \<^verbatim>\<open>await callProcedure(...)\<close>, and after that, for a
  subscription it has registered, at \<^verbatim>\<open>await sub.start()\<close>. A suspended call is a task:
  the request's fields and what the awaited call will produce.
\<close>

datatype task =
    AwaitProcedure js_value procedureType string js_value awaited
  | AwaitStart js_value procedureType string js_value "js_value thrown option"

datatype progress = Rejected "js_value thrown" | Completed | Suspended task

text \<open>\<^verbatim>\<open>handleRequest(msg)\<close> up to its first \<^verbatim>\<open>await\<close>.\<close>

fun handleRequest ::
  "'shape handler_opts \<Rightarrow> awaited \<Rightarrow> request \<Rightarrow> 'shape handler_state \<Rightarrow>
     progress \<times> 'shape handler_state" where
  "handleRequest opts aw (Stop id') st0 =
     (let st = st0\<lparr>handled := handled st0 @ [Stop id']\<rparr>
      in if id' = JNull then (Rejected (TRPCError BAD_REQUEST (Some ''`id` is required'') None), st)
         else (let st1 = (case Map_get (clientSubscriptions st) id' of
                            Some sub \<Rightarrow> destroy opts sub st
                          | None \<Rightarrow> st)
               in (Completed, st1\<lparr>clientSubscriptions := Map_delete id' (clientSubscriptions st1)\<rparr>)))"
| "handleRequest opts aw (Call id' type path input) st0 =
     (let st = st0\<lparr>handled := handled st0 @ [Call id' type path input]\<rparr>
      in if id' = JNull then (Rejected (TRPCError BAD_REQUEST (Some ''`id` is required'') None), st)
         else (Suspended (AwaitProcedure id' type path input aw), st))"

text \<open>
  The rest of \<^verbatim>\<open>handleRequest\<close>, from the point where the awaited promise has settled up
  to the next \<^verbatim>\<open>await\<close> or to the end. The first component is the task the call is
  suspended in afterwards, if any.
\<close>

fun resume ::
  "'shape handler_opts \<Rightarrow> task \<Rightarrow> 'shape handler_state \<Rightarrow> task option \<times> 'shape handler_state" where
  "resume opts (AwaitProcedure id' type path input aw) st =
     (case callProcedure aw of
        Threw cause \<Rightarrow> (None, respond_error opts id' type path input cause st)
      | Returned result \<Rightarrow> (None, respond (Result id' (Data result)) st)
      | ReturnedSubscription sub \<Rightarrow>
          if Map_get (clientSubscriptions st) id' \<noteq> None
          then (None, respond_error opts id' type path input
                        (TRPCError BAD_REQUEST (Some (''Duplicate id '' @ toString opts id')) None)
                        (destroy opts sub st))
          else (let st1 = st\<lparr>clientSubscriptions := Map_set id' sub (clientSubscriptions st)\<rparr>;
                    st2 = on sub (Call id' type path input) st1;
                    st3 = respond (Result id' Started) st2;
                    st4 = start sub st3
                in (Some (AwaitStart id' type path input (start_throws aw)), st4)))"
| "resume opts (AwaitStart id' type path input failure) st =
     (case failure of
        None \<Rightarrow> (None, st)
      | Some cause \<Rightarrow> (None, respond_error opts id' type path input cause st))"

text \<open>
  The \<^verbatim>\<open>'message'\<close> listener. \<open>msgJSON\<close> is what \<^verbatim>\<open>JSON.parse\<close> returned or threw.
  \<^verbatim>\<open>msgs.map(parseMessage)\<close> parses every member before \<^verbatim>\<open>.map(handleRequest)\<close> calls
  the first handler, and a throw leaves the \<^verbatim>\<open>try\<close> block at once.
\<close>

fun parseMessages ::
  "(js_value \<Rightarrow> js_value thrown + js_value) \<Rightarrow> js_value list \<Rightarrow> js_value thrown + request list" where
  "parseMessages d [] = Inr []"
| "parseMessages d (raw # raws) =
     (case parseMessage raw d of
        Inl e \<Rightarrow> Inl e
      | Inr req \<Rightarrow> (case parseMessages d raws of Inl e \<Rightarrow> Inl e | Inr reqs \<Rightarrow> Inr (req # reqs)))"

text \<open>
  \<^verbatim>\<open>.map(handleRequest)\<close> calls the handler on every parsed member, in array order, each up
  to its first \<^verbatim>\<open>await\<close>; the \<open>i\<close>-th call awaits \<open>aw i\<close>. The result lists the
  rejections and the suspended calls, both in array order.
\<close>

fun handleRequests ::
  "'shape handler_opts \<Rightarrow> (nat \<Rightarrow> awaited) \<Rightarrow> nat \<Rightarrow> request list \<Rightarrow> 'shape handler_state \<Rightarrow>
     js_value thrown list \<times> task list \<times> 'shape handler_state" where
  "handleRequests opts aw i [] st = ([], [], st)"
| "handleRequests opts aw i (req # reqs) st =
     (case handleRequest opts (aw i) req st of
        (pr, st1) \<Rightarrow>
          (case handleRequests opts aw (Suc i) reqs st1 of
             (rs, ts, st2) \<Rightarrow>
               (case pr of
                  Rejected e \<Rightarrow> (e # rs, ts, st2)
                | Completed \<Rightarrow> (rs, ts, st2)
                | Suspended t \<Rightarrow> (rs, t # ts, st2))))"

definition respond_parse_error ::
  "'shape handler_opts \<Rightarrow> js_value thrown \<Rightarrow> 'shape handler_state \<Rightarrow> 'shape handler_state" where
  "respond_parse_error opts cause st =
     respond (Failure JNull (getErrorShape opts
        \<lparr>shape_error = TRPCError PARSE_ERROR None (Some cause), shape_type = None,
         shape_path = None, shape_input = JUndefined\<rparr>)) st"

text \<open>
  The listener is an \<^verbatim>\<open>async\<close> function too. When \<^verbatim>\<open>JSON.parse\<close> or a \<^verbatim>\<open>parseMessage\<close>
  throws, its \<^verbatim>\<open>catch\<close> block runs at once and the listener is finished. Otherwise it is
  suspended at \<^verbatim>\<open>await Promise.all(promises)\<close>: that promise is rejected as soon as one
  of the calls is rejected, and fulfilled when all calls are complete. The state of the
  listener and the suspended calls of its members make up the processing of one message.
\<close>

datatype listener_state = Awaiting | Rejecting "js_value thrown" | Finished

record 'shape processing =
  listener :: listener_state
  pending_calls :: "task list"
  hstate :: "'shape handler_state"

text \<open>The listener up to its \<^verbatim>\<open>await\<close>.\<close>

definition on_message ::
  "'shape handler_opts \<Rightarrow> (nat \<Rightarrow> awaited) \<Rightarrow> js_value thrown + js_value \<Rightarrow> 'shape handler_state \<Rightarrow>
     'shape processing" where
  "on_message opts aw parsed st =
     (case parsed of
        Inl cause \<Rightarrow>
          \<lparr>listener = Finished, pending_calls = [], hstate = respond_parse_error opts cause st\<rparr>
      | Inr msgJSON \<Rightarrow>
          (let msgs = (case msgJSON of JArray xs \<Rightarrow> xs | _ \<Rightarrow> [msgJSON])
           in case parseMessages (deserialize opts) msgs of
                Inl cause \<Rightarrow>
                  \<lparr>listener = Finished, pending_calls = [], hstate = respond_parse_error opts cause st\<rparr>
              | Inr reqs \<Rightarrow>
                  (case handleRequests opts aw 0 reqs st of
                     (rs, ts, st1) \<Rightarrow>
                       \<lparr>listener = (case rs of
                                      cause # rest \<Rightarrow> Rejecting cause
                                    | [] \<Rightarrow> if ts = [] then Finished else Awaiting),
                        pending_calls = ts, hstate = st1\<rparr>)))"

text \<open>
  What happens next is one of: a suspended call resumes, because the promise it awaits
  has settled, or the listener resumes. Each runs without interruption up to its next
  \<^verbatim>\<open>await\<close>. Which comes first depends on how many turns of the job queue the router
  and the Subscription take to settle each promise, which is not in the hands of the
  handler; so the order is a parameter: a schedule is a list of choices, and \<open>Member k\<close>
  resumes the \<open>k\<close>-th pending call. A listener whose \<^verbatim>\<open>Promise.all\<close> was rejected runs
  its \<^verbatim>\<open>catch\<close> block; one that still waits is finished when the last of the calls is
  complete. A choice that is not possible changes nothing.
\<close>

datatype choice = Member nat | Listener

fun step :: "'shape handler_opts \<Rightarrow> 'shape processing \<Rightarrow> choice \<Rightarrow> 'shape processing" where
  "step opts t (Member k) =
     (if k < length (pending_calls t)
      then (case resume opts (pending_calls t ! k) (hstate t) of
              (next, st1) \<Rightarrow>
                (let ts = take k (pending_calls t) @ (case next of None \<Rightarrow> [] | Some t1 \<Rightarrow> [t1]) @
                          drop (Suc k) (pending_calls t)
                 in \<lparr>listener = (if listener t = Awaiting \<and> ts = [] then Finished else listener t),
                     pending_calls = ts, hstate = st1\<rparr>))
      else t)"
| "step opts t Listener =
     (case listener t of
        Rejecting cause \<Rightarrow>
          t\<lparr>listener := Finished, hstate := respond_parse_error opts cause (hstate t)\<rparr>
      | Awaiting \<Rightarrow> t
      | Finished \<Rightarrow> t)"

definition advance :: "'shape handler_opts \<Rightarrow> choice list \<Rightarrow> 'shape processing \<Rightarrow> 'shape processing" where
  "advance opts schedule t = foldl (step opts) t schedule"

text \<open>
  The calls that \<^verbatim>\<open>.map(handleRequest)\<close> leaves suspended: one for each member that is not
  a stop request and has an id.
\<close>

fun suspended :: "(nat \<Rightarrow> awaited) \<Rightarrow> nat \<Rightarrow> request list \<Rightarrow> task list" where
  "suspended aw i [] = []"
| "suspended aw i (Stop id' # reqs) = suspended aw (Suc i) reqs"
| "suspended aw i (Call id' type path input # reqs) =
     (if id' = JNull then [] else [AwaitProcedure id' type path input (aw i)]) @
     suspended aw (Suc i) reqs"

text \<open>\<^verbatim>\<open>close()\<close>: destroy every tracked subscription, in the order of the map, and clear it.\<close>

definition close :: "'shape handler_opts \<Rightarrow> 'shape handler_state \<Rightarrow> 'shape handler_state" where
  "close opts st =
     (foldl (\<lambda>s sub. destroy opts sub s) st (map snd (clientSubscriptions st)))
       \<lparr>clientSubscriptions := []\<rparr>"

section \<open>Procedure: parsers, middlewares and the resolver\<close>

text \<open>
  \<^verbatim>\<open>ProcedureCallOptions\<close>: the context, the raw input, the path and the procedure type of
  one call. JavaScript values are of one type \<open>'a\<close>.
\<close>

record 'a callOptions =
  ctx :: 'a
  rawInput :: 'a
  path :: string
  type :: procedureType

text \<open>
  A middleware result: \<^verbatim>\<open>{ ok: true, data, ctx }\<close> or \<^verbatim>\<open>{ ok: false, error }\<close>. A function
  that returns nothing returns \<^verbatim>\<open>undefined\<close>, which is \<open>None\<close> below.
\<close>

datatype 'a middlewareResult = ResultOk 'a 'a | ResultError "'a thrown"

text \<open>
  A middleware is code of the caller. All it can do to the procedure is return, throw, or
  call \<^verbatim>\<open>next\<close> (with a new context or with no argument) and go on with what \<^verbatim>\<open>next\<close>
  returned: its run is a tree of these three steps. It is given the context, the call
  options and the procedure's \<^verbatim>\<open>meta\<close>.
\<close>

datatype 'a run =
    Return "'a middlewareResult option"
  | Throw "'a thrown"
  | Next "'a option" "'a middlewareResult option \<Rightarrow> 'a run"

type_synonym 'a middlewareFunction = "'a callOptions \<Rightarrow> 'a \<Rightarrow> 'a run"

text \<open>
  The class keeps the two parse functions that \<^verbatim>\<open>getParseFn\<close> resolved in the constructor.
  A parser and the resolver return a value or throw. The resolver is called with
  \<^verbatim>\<open>{ ...opts, ctx, input }\<close>.
\<close>

record 'a procedure =
  middlewares :: "'a middlewareFunction list"
  resolver :: "'a callOptions \<Rightarrow> 'a \<Rightarrow> 'a thrown + 'a"
  parseInputFn :: "'a \<Rightarrow> 'a thrown + 'a"
  parseOutputFn :: "'a \<Rightarrow> 'a thrown + 'a"
  meta :: 'a

text \<open>
  The calls of the caller's functions, in the order in which they happen: middleware number
  \<open>index\<close> with the context it is given, the input parser with the raw input, the
  resolver with context and parsed input, the output parser with the raw output.
\<close>

datatype 'a invocation =
    MiddlewareCall nat 'a
  | ParseInputCall 'a
  | ResolverCall 'a 'a
  | ParseOutputCall 'a

definition parseInput :: "'a procedure \<Rightarrow> 'a \<Rightarrow> 'a thrown + 'a" where
  "parseInput p raw =
     (case parseInputFn p raw of
        Inl cause \<Rightarrow> Inl (TRPCError BAD_REQUEST None (Some cause))
      | Inr v \<Rightarrow> Inr v)"

definition parseOutput :: "'a procedure \<Rightarrow> 'a \<Rightarrow> 'a thrown + 'a" where
  "parseOutput p rawOutput =
     (case parseOutputFn p rawOutput of
        Inl cause \<Rightarrow> Inl (TRPCError INTERNAL_SERVER_ERROR (Some ''Output validation failed'') (Some cause))
      | Inr v \<Rightarrow> Inr v)"

text \<open>
  The function that \<^verbatim>\<open>call\<close> appends to the middlewares: parse the raw input, call the
  resolver, parse its output.
\<close>

definition resolverMiddleware ::
  "'a procedure \<Rightarrow> 'a callOptions \<Rightarrow> 'a \<Rightarrow> 'a invocation list \<Rightarrow>
     ('a thrown + 'a middlewareResult option) \<times> 'a invocation list" where
  "resolverMiddleware p opts c l =
     (let l1 = l @ [ParseInputCall (rawInput opts)]
      in case parseInput p (rawInput opts) of
           Inl e \<Rightarrow> (Inl e, l1)
         | Inr input \<Rightarrow>
             (let l2 = l1 @ [ResolverCall c input]
              in case resolver p (opts\<lparr>ctx := c\<rparr>) input of
                   Inl e \<Rightarrow> (Inl e, l2)
                 | Inr rawOutput \<Rightarrow>
                     (let l3 = l2 @ [ParseOutputCall rawOutput]
                      in case parseOutput p rawOutput of
                           Inl e \<Rightarrow> (Inl e, l3)
                         | Inr data \<Rightarrow> (Inr (Some (ResultOk data c)), l3))))"

text \<open>Running a middleware with a given \<^verbatim>\<open>next\<close>.\<close>

primrec exec ::
  "'a run \<Rightarrow> ('a option \<Rightarrow> 'a invocation list \<Rightarrow> 'a middlewareResult option \<times> 'a invocation list) \<Rightarrow>
     'a invocation list \<Rightarrow> ('a thrown + 'a middlewareResult option) \<times> 'a invocation list" where
  "exec (Return r) = (\<lambda>nxt l. (Inr r, l))"
| "exec (Throw e) = (\<lambda>nxt l. (Inl e, l))"
| "exec (Next c k) = (\<lambda>nxt l. case nxt c l of (r, l1) \<Rightarrow> exec (k r) nxt l1)"

text \<open>
  Modelled from the spec: \<^verbatim>\<open>wrapCallSafe\<close> is not among the sources. The spec: each step's
  invocation is wrapped so that a thrown error or rejected result becomes a local
  \<^verbatim>\<open>{ ok: false, error }\<close> value. After it, a \<^verbatim>\<open>next\<close> function returns \<^verbatim>\<open>res.data\<close> when
  \<^verbatim>\<open>res.ok\<close>, and \<^verbatim>\<open>{ ok: false, error: getErrorFromUnknown(res.error) }\<close> otherwise.
\<close>

definition wrapCallSafe ::
  "('a thrown + 'a middlewareResult option) \<times> 'a invocation list \<Rightarrow>
     'a middlewareResult option \<times> 'a invocation list" where
  "wrapCallSafe res =
     (case res of
        (Inr data, l) \<Rightarrow> (data, l)
      | (Inl error, l) \<Rightarrow> (Some (ResultError (getErrorFromUnknown error)), l))"

text \<open>
  \<^verbatim>\<open>nextFns[index]\<close> for the functions from \<open>index\<close> on; the list ends with the
  resolver's function. The context is \<^verbatim>\<open>nextOpts ? nextOpts.ctx : opts.ctx\<close>.
\<close>

fun nextFns ::
  "'a procedure \<Rightarrow> 'a callOptions \<Rightarrow> nat \<Rightarrow> 'a middlewareFunction list \<Rightarrow>
     'a option \<Rightarrow> 'a invocation list \<Rightarrow> 'a middlewareResult option \<times> 'a invocation list" where
  "nextFns p opts index [] nextOpts l =
     wrapCallSafe (resolverMiddleware p opts (case nextOpts of Some c \<Rightarrow> c | None \<Rightarrow> ctx opts) l)"
| "nextFns p opts index (fn # fns) nextOpts l =
     (let c = (case nextOpts of Some c \<Rightarrow> c | None \<Rightarrow> ctx opts)
      in wrapCallSafe
           (exec (fn (opts\<lparr>ctx := c\<rparr>) (meta p)) (nextFns p opts (Suc index) fns)
              (l @ [MiddlewareCall index c])))"

text \<open>
  \<^verbatim>\<open>call(opts)\<close>: what it returns or throws, and the calls it made.
\<close>

definition call :: "'a procedure \<Rightarrow> 'a callOptions \<Rightarrow> ('a thrown + 'a) \<times> 'a invocation list" where
  "call p opts =
     (case nextFns p opts 0 (middlewares p) None [] of
        (None, l) \<Rightarrow>
          (Inl (TRPCError INTERNAL_SERVER_ERROR
                  (Some ''No result from middlewares - did you forget to `return next()`?'') None), l)
      | (Some (ResultError error), l) \<Rightarrow> (Inl error, l)
      | (Some (ResultOk data c), l) \<Rightarrow> (Inr data, l))"

text \<open>
  Two kinds of middleware. One that calls \<^verbatim>\<open>next\<close> once and then returns or throws:
  \<open>nextOpts\<close> chooses the argument of \<^verbatim>\<open>next\<close>, \<open>after\<close> what is done with its result.
  And one that returns the result of \<^verbatim>\<open>next\<close> as it is (\<^verbatim>\<open>return next(...)\<close>).
\<close>

definition callsNextOnce ::
  "('a callOptions \<Rightarrow> 'a \<Rightarrow> 'a option) \<times>
   ('a callOptions \<Rightarrow> 'a \<Rightarrow> 'a middlewareResult option \<Rightarrow> 'a thrown + 'a middlewareResult option) \<Rightarrow>
     'a middlewareFunction" where
  "callsNextOnce m =
     (\<lambda>opts mt. Next (fst m opts mt)
        (\<lambda>r. case snd m opts mt r of Inl e \<Rightarrow> Throw e | Inr v \<Rightarrow> Return v))"

definition returnsNext :: "('a callOptions \<Rightarrow> 'a \<Rightarrow> 'a option) \<Rightarrow> 'a middlewareFunction" where
  "returnsNext nextOpts = (\<lambda>opts mt. Next (nextOpts opts mt) Return)"

text \<open>
  The contexts along a chain of middlewares that each call \<^verbatim>\<open>next\<close> once: the context
  given to each middleware, and last the one given to the resolver's function.
\<close>

fun contexts ::
  "'a callOptions \<Rightarrow> 'a \<Rightarrow> 'a \<Rightarrow> ('a callOptions \<Rightarrow> 'a \<Rightarrow> 'a option) list \<Rightarrow> 'a list" where
  "contexts opts mt c [] = [c]"
| "contexts opts mt c (n # ns) =
     c # contexts opts mt (case n (opts\<lparr>ctx := c\<rparr>) mt of Some c1 \<Rightarrow> c1 | None \<Rightarrow> ctx opts) ns"

fun is_step :: "'a invocation \<Rightarrow> bool" where
  "is_step (MiddlewareCall i c) = True"
| "is_step (ResolverCall c x) = True"
| "is_step (ParseInputCall x) = False"
| "is_step (ParseOutputCall x) = False"

fun is_resolver :: "'a invocation \<Rightarrow> bool" where
  "is_resolver (ResolverCall c x) = True"
| "is_resolver i = False"

text \<open>
  Every call of the output parser in a list of calls comes directly after a call of the
  resolver; \<open>resolved\<close> tells whether the call just before the list was one.
\<close>

fun parsed_after_resolver :: "bool \<Rightarrow> 'a invocation list \<Rightarrow> bool" where
  "parsed_after_resolver resolved [] = True"
| "parsed_after_resolver resolved (ResolverCall c x # l) = parsed_after_resolver True l"
| "parsed_after_resolver resolved (ParseOutputCall y # l) = (resolved \<and> parsed_after_resolver False l)"
| "parsed_after_resolver resolved (MiddlewareCall i c # l) = parsed_after_resolver False l"
| "parsed_after_resolver resolved (ParseInputCall x # l) = parsed_after_resolver False l"

text \<open>
  The calls of a chain of middlewares that each call \<^verbatim>\<open>next\<close> once, numbered from
  \<open>i\<close>, with the contexts they are given.
\<close>

fun middlewareCalls :: "nat \<Rightarrow> 'a list \<Rightarrow> 'a invocation list" where
  "middlewareCalls i [] = []"
| "middlewareCalls i (c # cs) = MiddlewareCall i c # middlewareCalls (Suc i) cs"

section \<open>Invariants of a subscription to an Observable\<close>

text \<open>
  While the producer function runs, \<^verbatim>\<open>teardownRef\<close> is \<^verbatim>\<open>null\<close> and nothing has been torn
  down; \<open>b\<close> tells whether a terminal notification was seen. Once the teardown logic
  \<open>td\<close> is attached, \<open>b\<close> tells whether the teardown section was entered.
\<close>

definition pending :: "('v, 'e) subscription \<Rightarrow> bool \<Rightarrow> bool" where
  "pending s b \<longleftrightarrow> teardownRef s = None \<and> \<not> unsubscribed s \<and> teardowns s = 0 \<and>
     teardownImmediately s = b \<and> isDone s = b"

definition attached :: "teardownLogic \<Rightarrow> ('v, 'e) subscription \<Rightarrow> bool \<Rightarrow> bool" where
  "attached td s b \<longleftrightarrow> teardownRef s = Some td \<and> unsubscribed s = b \<and> (isDone s \<longrightarrow> b) \<and>
     teardowns s = (if b \<and> td \<noteq> Void then 1 else 0)"

section \<open>Notions for the statements about the handler\<close>

text \<open>
  The error of a request without an id; a request is anonymous when its id is \<^verbatim>\<open>null\<close>.
\<close>

definition id_required :: "js_value thrown" where
  "id_required = TRPCError BAD_REQUEST (Some ''`id` is required'') None"

definition anonymous :: "request \<Rightarrow> bool" where
  "anonymous req = (req_id req = JNull)"

text \<open>
  As long as no call was rejected, the listener waits while a call is pending and is
  finished when none is.
\<close>

definition settles_when_idle :: "'shape processing \<Rightarrow> bool" where
  "settles_when_idle t =
     (case listener t of
        Awaiting \<Rightarrow> pending_calls t \<noteq> []
      | Finished \<Rightarrow> pending_calls t = []
      | Rejecting cause \<Rightarrow> False)"

section \<open>Examples\<close>

text \<open>
  A handler whose error formatter returns its argument, with no \<^verbatim>\<open>onError\<close> and the
  identity as transformer (the conversion to a string is given for strings and for the
  two numeric ids used here); the state of a new handler; a subscription request with id
  \<open>7\<close>, the call suspended for it, and the state after it was accepted; envelopes for a
  query, for a query without a path, for the subscription and its stop, and for a request
  without an id.
\<close>

definition initial_state :: "'shape handler_state" where
  "initial_state = \<lparr>clientSubscriptions = [],
     subscriptions = (\<lambda>sub. \<lparr>started = False, destroyed = False, handlers = None\<rparr>),
     responses = [], reported = [], handled = []\<rparr>"

definition example_opts :: "shape_opts handler_opts" where
  "example_opts = \<lparr>getErrorShape = (\<lambda>x. x), has_onError = False, deserialize = Inr,
     toString = (\<lambda>v. case v of JString s \<Rightarrow> s | _ \<Rightarrow> (if v = JNumber (Finite 7) then ''7'' else ''1''))\<rparr>"

definition subscribe7 :: request where
  "subscribe7 = Call (JNumber (Finite 7)) Subscription ''randomNumber'' JUndefined"

definition stop7 :: request where
  "stop7 = Stop (JNumber (Finite 7))"

definition returns_subscription :: "sub_ref \<Rightarrow> awaited" where
  "returns_subscription sub = \<lparr>callProcedure = ReturnedSubscription sub, start_throws = None\<rparr>"

definition awaiting7 :: "sub_ref \<Rightarrow> task" where
  "awaiting7 sub = AwaitProcedure (JNumber (Finite 7)) Subscription ''randomNumber'' JUndefined
     (returns_subscription sub)"

definition tracking7 :: "shape_opts handler_state" where
  "tracking7 = snd (resume example_opts (awaiting7 0)
     (snd (handleRequest example_opts (returns_subscription 0) subscribe7 initial_state)))"

definition hello_envelope :: js_value where
  "hello_envelope = JObject [(''id'', JNumber (Finite 1)), (''method'', JString ''query''),
     (''params'', JObject [(''path'', JString ''hello''), (''input'', JObject [(''name'', JString ''client'')])])]"

definition hello_request :: request where
  "hello_request = Call (JNumber (Finite 1)) Query ''hello'' (JObject [(''name'', JString ''client'')])"

definition pathless_envelope :: js_value where
  "pathless_envelope = JObject [(''id'', JNumber (Finite 2)), (''method'', JString ''query''),
     (''params'', JObject [(''input'', JNull)])]"

definition subscribe7_envelope :: js_value where
  "subscribe7_envelope = JObject [(''id'', JNumber (Finite 7)), (''method'', JString ''subscription''),
     (''params'', JObject [(''path'', JString ''randomNumber'')])]"

definition stop7_envelope :: js_value where
  "stop7_envelope = JObject [(''id'', JNumber (Finite 7)), (''method'', JString ''subscription.stop'')]"

definition anonymous_envelope :: js_value where
  "anonymous_envelope = JObject [(''id'', JNull), (''method'', JString ''subscription.stop'')]"

definition returns_hello :: "nat \<Rightarrow> awaited" where
  "returns_hello i = \<lparr>callProcedure = Returned (JObject [(''text'', JString ''hello client'')]), start_throws = None\<rparr>"

definition awaiting_hello :: "js_value \<Rightarrow> task" where
  "awaiting_hello i = AwaitProcedure i Query ''hello'' (JObject [(''name'', JString ''client'')])
     (returns_hello 0)"

definition throws_boom :: awaited where
  "throws_boom = \<lparr>callProcedure = Threw (Error ''boom''), start_throws = None\<rparr>"

text \<open>
  A procedure that greets: the input must be a string. \<open>strict\<close> differs in an output
  parser that accepts nothing. \<open>authenticated\<close> is a middleware that throws unless the
  context names a user; \<open>fallback\<close> answers \<^verbatim>\<open>null\<close> when the rest of the chain failed.
\<close>

definition hello :: "js_value procedure" where
  "hello = \<lparr>middlewares = [],
     resolver = (\<lambda>opts input. Inr (JObject [(''text'', input)])),
     parseInputFn = (\<lambda>raw. if js_typeof raw = ''string'' then Inr raw else Inl (Error ''Expected string'')),
     parseOutputFn = Inr,
     meta = JUndefined\<rparr>"

definition strict :: "js_value procedure" where
  "strict = hello\<lparr>parseOutputFn := (\<lambda>out. Inl (Error ''Unexpected output''))\<rparr>"

definition greet :: "js_value \<Rightarrow> js_value callOptions" where
  "greet raw = \<lparr>ctx = JNull, rawInput = raw, path = ''hello'', type = Query\<rparr>"

definition authenticated :: "js_value middlewareFunction" where
  "authenticated = (\<lambda>opts mt. if ctx opts = JNull then Throw (Error ''Not authenticated'') else Next None Return)"

definition fallback :: "js_value middlewareFunction" where
  "fallback = (\<lambda>opts mt. Next None
     (\<lambda>r. case r of
             Some (ResultError e) \<Rightarrow> Return (Some (ResultOk JNull (ctx opts)))
           | _ \<Rightarrow> Return r))"

definition as_user :: "js_value callOptions \<Rightarrow> js_value \<Rightarrow> js_value option" where
  "as_user opts mt = Some (JString ''user'')"

definition as_before :: "js_value callOptions \<Rightarrow> js_value \<Rightarrow> js_value option" where
  "as_before opts mt = None"

section \<open>Properties of the Observable\<close>

subsection \<open>Once done, always done\<close>

lemma unsubscribe_isDone: "isDone (unsubscribe s) = isDone s"
  by (simp add: unsubscribe_def record_effect_def split: option.split teardownLogic.split)

lemma unsubscribe_callbacks: "callbacks (unsubscribe s) = callbacks s"
  by (simp add: unsubscribe_def record_effect_def callbacks_def split: option.split teardownLogic.split)

lemma unsubscribe_idem: "unsubscribe (unsubscribe s) = unsubscribe s"
  by (simp add: unsubscribe_def record_effect_def split: option.split teardownLogic.split)

lemma notify_done: "isDone s \<Longrightarrow> notify ob s n = s"
  by (cases n) (simp_all add: obs_next_def obs_error_def obs_complete_def)

lemma notify_terminal: "terminal n \<Longrightarrow> isDone (notify ob s n)"
  by (cases n) (simp_all add: obs_error_def obs_complete_def unsubscribe_isDone record_effect_def Let_def)

lemma act_done: "isDone s \<Longrightarrow> isDone (act ob s a) \<and> callbacks (act ob s a) = callbacks s"
  by (cases a) (simp_all add: notify_done unsubscribe_isDone unsubscribe_callbacks)

lemma acts_done:
  "isDone s \<Longrightarrow> isDone (foldl (act ob) s acts) \<and> callbacks (foldl (act ob) s acts) = callbacks s"
proof (induction acts arbitrary: s)
  case Nil
  then show ?case by simp
next
  case (Cons a acts)
  from Cons.prems have d: "isDone (act ob s a)" and c: "callbacks (act ob s a) = callbacks s"
    using act_done by blast+
  from Cons.IH [OF d] c show ?case by simp
qed

lemma notifies_done: "isDone s \<Longrightarrow> foldl (notify ob) s ns = s"
  by (induction ns arbitrary: s) (simp_all add: notify_done)

lemma attach_isDone: "isDone (attach td s) = isDone s"
  by (simp add: attach_def Let_def unsubscribe_isDone)

lemma callbacks_teardownRef: "callbacks (s\<lparr>teardownRef := r\<rparr>) = callbacks s"
  by (simp add: callbacks_def)

lemma attach_callbacks: "callbacks (attach td s) = callbacks s"
  by (simp add: attach_def Let_def unsubscribe_callbacks callbacks_teardownRef)

text \<open>
  C4. Once the producer has called \<^verbatim>\<open>error\<close> or \<^verbatim>\<open>complete\<close> on the wrapped observer, no
  later call of \<^verbatim>\<open>next\<close>, \<^verbatim>\<open>error\<close> or \<^verbatim>\<open>complete\<close> reaches a callback of the
  downstream observer. Whether the terminal notification \<open>n\<close> comes while the producer
  function still runs or after \<^verbatim>\<open>subscribe\<close> has returned, the callbacks invoked over the
  whole life of the subscription are those invoked up to and including \<open>n\<close>, whatever the
  producer and the consumer do afterwards.
\<close>

theorem latched_done:
  "terminal n \<Longrightarrow>
     callbacks (lifecycle ob (pre @ n # post) td acts) = callbacks (foldl (notify ob) initial (pre @ [n])) \<and>
     callbacks (lifecycle ob sync td (before @ Producer n # after)) =
       callbacks (lifecycle ob sync td (before @ [Producer n])) \<and>
     isDone (lifecycle ob (pre @ n # post) td acts) \<and>
     isDone (lifecycle ob sync td (before @ Producer n # after))"
proof -
  assume t: "terminal n"
  let ?s = "foldl (notify ob) initial (pre @ [n])"
  have d: "isDone ?s" using t by (simp add: notify_terminal)
  have "foldl (notify ob) initial (pre @ n # post) = foldl (notify ob) ?s post" by simp
  also have "\<dots> = ?s" using d by (rule notifies_done)
  finally have e: "foldl (notify ob) initial (pre @ n # post) = ?s" .
  have da: "isDone (attach td ?s)" using d by (simp add: attach_isDone)
  have one: "callbacks (lifecycle ob (pre @ n # post) td acts) = callbacks ?s \<and>
      isDone (lifecycle ob (pre @ n # post) td acts)"
    unfolding lifecycle_def subscribe_def e
    using acts_done [OF da, of ob acts] by (simp add: attach_callbacks)
  let ?u = "lifecycle ob sync td (before @ [Producer n])"
  have du: "isDone ?u" using t by (simp add: lifecycle_def notify_terminal)
  have "lifecycle ob sync td (before @ Producer n # after) = foldl (act ob) ?u after"
    by (simp add: lifecycle_def)
  then have two: "callbacks (lifecycle ob sync td (before @ Producer n # after)) = callbacks ?u \<and>
      isDone (lifecycle ob sync td (before @ Producer n # after))"
    using acts_done [OF du, of ob after] by simp
  from one two show ?thesis by simp
qed

theorem latched_done_witness:
  "terminal (ErrorN ''boom'') \<and>
   callbacks (lifecycle \<lparr>has_next = True, has_error = True, has_complete = True\<rparr>
      [NextN (1::nat)] UnsubscribeFn
      [Producer (NextN 2), Producer (ErrorN ''boom''), Producer (NextN 3), Producer CompleteN,
       Producer (ErrorN ''again''), Unsubscribe]) =
     [ObserverNext 1, ObserverNext 2, ObserverError ''boom'']"
  using latched_done [of "ErrorN ''boom''" "\<lparr>has_next = True, has_error = True, has_complete = True\<rparr>"
      "[]" "[]" UnsubscribeFn "[]" "[NextN (1::nat)]" "[Producer (NextN 2)]"
      "[Producer (NextN 3), Producer CompleteN, Producer (ErrorN ''again''), Unsubscribe]"]
  by (simp add: lifecycle_def subscribe_def attach_def initial_def obs_next_def obs_error_def
      unsubscribe_def record_effect_def callbacks_def)

subsection \<open>Teardown runs once\<close>

lemma pending_initial: "pending initial False"
  by (simp add: pending_def initial_def teardowns_def)

lemma pending_notify: "pending s b \<Longrightarrow> pending (notify ob s n) (b \<or> terminal n)"
  by (cases n)
     (auto simp: pending_def obs_next_def obs_error_def obs_complete_def unsubscribe_def
        record_effect_def teardowns_def Let_def)

lemma pending_notifies: "pending s b \<Longrightarrow> pending (foldl (notify ob) s ns) (b \<or> list_ex terminal ns)"
proof (induction ns arbitrary: s b)
  case Nil
  then show ?case by simp
next
  case (Cons n ns)
  from Cons.IH [OF pending_notify [OF Cons.prems, of ob n]] show ?case
    by (simp add: disj_assoc)
qed

lemma attached_attach: "pending s b \<Longrightarrow> attached td (attach td s) b"
  by (cases td)
     (auto simp: pending_def attached_def attach_def unsubscribe_def record_effect_def
        teardowns_def Let_def)

lemma attached_unsubscribe: "attached td s b \<Longrightarrow> attached td (unsubscribe s) True"
  by (cases td)
     (auto simp: attached_def unsubscribe_def record_effect_def teardowns_def)

lemma attached_act: "attached td s b \<Longrightarrow> attached td (act ob s a) (b \<or> requests_teardown a)"
proof (cases a)
  case Unsubscribe
  assume "attached td s b"
  then show ?thesis using Unsubscribe by (simp add: attached_unsubscribe)
next
  case (Producer n)
  assume a: "attached td s b"
  show ?thesis
  proof (cases "isDone s")
    case True
    then have "b" using a by (simp add: attached_def)
    then show ?thesis using a Producer True by (simp add: notify_done)
  next
    case False
    show ?thesis
    proof (cases n)
      case (NextN v)
      then show ?thesis using a Producer False
        by (auto simp: attached_def obs_next_def record_effect_def teardowns_def)
    next
      case (ErrorN e)
      show ?thesis using a Producer False ErrorN
        by (cases td) (auto simp: attached_def obs_error_def unsubscribe_def record_effect_def teardowns_def Let_def)
    next
      case CompleteN
      show ?thesis using a Producer False CompleteN
        by (cases td) (auto simp: attached_def obs_complete_def unsubscribe_def record_effect_def teardowns_def Let_def)
    qed
  qed
qed

lemma attached_acts:
  "attached td s b \<Longrightarrow> attached td (foldl (act ob) s acts) (b \<or> list_ex requests_teardown acts)"
proof (induction acts arbitrary: s b)
  case Nil
  then show ?case by simp
next
  case (Cons a acts)
  from Cons.IH [OF attached_act [OF Cons.prems, of ob a]] show ?case
    by (simp add: disj_assoc)
qed

lemma attached_lifecycle:
  "attached td (lifecycle ob sync td acts) (list_ex terminal sync \<or> list_ex requests_teardown acts)"
proof -
  have "pending (foldl (notify ob) initial sync) (list_ex terminal sync)"
    using pending_notifies [OF pending_initial, of ob sync] by simp
  then have "attached td (subscribe ob sync td) (list_ex terminal sync)"
    unfolding subscribe_def by (rule attached_attach)
  then show ?thesis unfolding lifecycle_def by (rule attached_acts)
qed

text \<open>
  C5. The teardown logic runs at most once. Over the whole life of a subscription the
  number of teardown calls is one when the producer returned a function or an
  unsubscribable and a teardown was requested (by a terminal notification or by
  \<^verbatim>\<open>unsubscribe\<close>), however often; it is zero otherwise. A request made while the producer
  function still runs, before \<^verbatim>\<open>teardownRef\<close> is assigned, is carried out when
  \<^verbatim>\<open>subscribe\<close> returns (\<open>acts = []\<close>) and not again. A second \<^verbatim>\<open>unsubscribe\<close> changes
  nothing.
\<close>

theorem teardown_once:
  "teardowns (lifecycle ob sync td acts) =
     (if td \<noteq> Void \<and> (list_ex terminal sync \<or> list_ex requests_teardown acts) then 1 else 0) \<and>
   unsubscribe (unsubscribe s) = unsubscribe s"
  using attached_lifecycle [of td ob sync acts]
  by (auto simp: attached_def unsubscribe_idem)

text \<open>
  The producer completes before it returns its teardown function, and the consumer
  unsubscribes twice afterwards: the function is called once, when \<^verbatim>\<open>subscribe\<close> returns.
\<close>

theorem teardown_once_witness:
  "teardowns (lifecycle \<lparr>has_next = True, has_error = True, has_complete = True\<rparr>
      [NextN (1::nat), CompleteN] UnsubscribeFn [Unsubscribe, Unsubscribe] :: (nat, string) subscription) = 1 \<and>
   effects (subscribe \<lparr>has_next = True, has_error = True, has_complete = True\<rparr>
      [NextN (1::nat), CompleteN] UnsubscribeFn :: (nat, string) subscription) =
     [ObserverNext 1, ObserverComplete, TeardownFn] \<and>
   effects (lifecycle \<lparr>has_next = True, has_error = True, has_complete = True\<rparr>
      [NextN (1::nat), CompleteN] UnsubscribeFn [Unsubscribe, Unsubscribe] :: (nat, string) subscription) =
     [ObserverNext 1, ObserverComplete, TeardownFn]"
  using teardown_once [of "\<lparr>has_next = True, has_error = True, has_complete = True\<rparr>"
      "[NextN (1::nat), CompleteN]" UnsubscribeFn "[Unsubscribe, Unsubscribe]", THEN conjunct1]
  by (simp add: lifecycle_def subscribe_def attach_def initial_def obs_next_def obs_complete_def
      unsubscribe_def record_effect_def teardowns_def)

subsection \<open>Unsubscribing does not end delivery\<close>

lemma no_terminal_sync: "\<not> list_ex terminal sync \<Longrightarrow> \<not> isDone (foldl (notify ob) initial sync)"
  using pending_notifies [OF pending_initial, of ob sync] by (simp add: pending_def)

lemma act_not_done: "\<not> isDone s \<Longrightarrow> \<not> fires_terminal a \<Longrightarrow> \<not> isDone (act ob s a)"
proof (cases a)
  case (Producer n)
  assume "\<not> isDone s" "\<not> fires_terminal a"
  then show ?thesis using Producer
    by (cases n) (simp_all add: obs_next_def record_effect_def)
next
  case Unsubscribe
  assume "\<not> isDone s"
  then show ?thesis using Unsubscribe by (simp add: unsubscribe_isDone)
qed

lemma acts_not_done:
  "\<not> isDone s \<Longrightarrow> \<not> list_ex fires_terminal acts \<Longrightarrow> \<not> isDone (foldl (act ob) s acts)"
  by (induction acts arbitrary: s) (simp_all add: act_not_done)

lemma lifecycle_not_done:
  assumes "\<not> list_ex terminal sync" and "\<not> list_ex fires_terminal acts"
  shows "\<not> isDone (lifecycle ob sync td acts)"
proof -
  have "\<not> isDone (subscribe ob sync td)"
    using no_terminal_sync [OF assms(1)] by (simp add: subscribe_def attach_isDone)
  then show ?thesis unfolding lifecycle_def using assms(2) by (rule acts_not_done)
qed

text \<open>
  C10. \<^verbatim>\<open>unsubscribe\<close> does not set \<^verbatim>\<open>isDone\<close>: as long as neither \<^verbatim>\<open>error\<close> nor
  \<^verbatim>\<open>complete\<close> was called, a \<^verbatim>\<open>next(v)\<close> of the producer after an \<^verbatim>\<open>unsubscribe\<close> still
  invokes the \<^verbatim>\<open>next\<close> callback of the downstream observer.
\<close>

theorem unsubscribe_does_not_latch:
  assumes "has_next ob" and "\<not> list_ex terminal sync" and "\<not> list_ex fires_terminal acts"
  shows "effects (lifecycle ob sync td (acts @ [Unsubscribe, Producer (NextN v)])) =
           effects (lifecycle ob sync td (acts @ [Unsubscribe])) @ [ObserverNext v] \<and>
         \<not> isDone (lifecycle ob sync td (acts @ [Unsubscribe]))"
proof -
  let ?s = "lifecycle ob sync td (acts @ [Unsubscribe])"
  have nd: "\<not> isDone ?s"
    using lifecycle_not_done [OF assms(2), of "acts @ [Unsubscribe]" ob td] assms(3) by simp
  have "lifecycle ob sync td (acts @ [Unsubscribe, Producer (NextN v)]) = obs_next ob v ?s"
    by (simp add: lifecycle_def)
  then show ?thesis using nd assms(1) by (simp add: obs_next_def record_effect_def)
qed

theorem unsubscribe_does_not_latch_witness:
  "has_next \<lparr>has_next = True, has_error = True, has_complete = True\<rparr> \<and>
   \<not> list_ex terminal [NextN (1::nat)] \<and>
   \<not> list_ex fires_terminal [Producer (NextN 2), Unsubscribe] \<and>
   effects (lifecycle \<lparr>has_next = True, has_error = True, has_complete = True\<rparr> [NextN (1::nat)]
      UnsubscribeFn [Producer (NextN 2), Unsubscribe, Unsubscribe, Producer (NextN 3)] :: (nat, string) subscription) =
     [ObserverNext 1, ObserverNext 2, TeardownFn, ObserverNext 3]"
  using unsubscribe_does_not_latch [of "\<lparr>has_next = True, has_error = True, has_complete = True\<rparr>"
      "[NextN (1::nat)]" "[Producer (NextN 2), Unsubscribe]" UnsubscribeFn 3]
  by (simp add: lifecycle_def subscribe_def attach_def initial_def obs_next_def unsubscribe_def
      record_effect_def)

section \<open>Properties of the postMessage handler\<close>

subsection \<open>The request id\<close>

text \<open>
  C9. The guard of \<^verbatim>\<open>assertIsRequestId\<close> holds for exactly one value, the number
  \<^verbatim>\<open>NaN\<close>: the function throws on \<^verbatim>\<open>NaN\<close> and returns on every other value, whether
  or not it is a number, a string or \<^verbatim>\<open>null\<close>.
\<close>

theorem request_id_guard:
  "assertIsRequestId obj = (if obj = JNumber NaN then Some (Error ''Invalid request id'') else None)"
proof (cases obj)
  case (JNumber n)
  then show ?thesis by (cases n) (simp_all add: assertIsRequestId_def)
qed (simp_all add: assertIsRequestId_def)

text \<open>
  The guard is not unsatisfiable: \<^verbatim>\<open>NaN\<close> is not \<^verbatim>\<open>null\<close>, its type is
  \<^verbatim>\<open>'number'\<close>, and \<^verbatim>\<open>isNaN(NaN)\<close> holds.
\<close>

theorem request_id_guard_NaN: "assertIsRequestId (JNumber NaN) = Some (Error ''Invalid request id'')"
  by (simp add: assertIsRequestId_def)

subsection \<open>What each step does to the state\<close>

lemma cs_respond: "clientSubscriptions (respond json st) = clientSubscriptions st"
  by (simp add: respond_def)

lemma cs_onError: "clientSubscriptions (onError opts x st) = clientSubscriptions st"
  by (simp add: onError_def)

lemma cs_respond_error:
  "clientSubscriptions (respond_error opts i t p inp cause st) = clientSubscriptions st"
  by (simp add: respond_error_def Let_def cs_respond cs_onError)

lemma cs_handle_event: "clientSubscriptions (handle_event opts req ev st) = clientSubscriptions st"
  by (cases req; cases ev) (simp_all add: cs_respond cs_respond_error)

lemma cs_emit: "clientSubscriptions (emit opts sub ev st) = clientSubscriptions st"
  by (simp add: emit_def cs_handle_event split: option.split)

lemma cs_destroy: "clientSubscriptions (destroy opts sub st) = clientSubscriptions st"
  by (simp add: destroy_def cs_emit)

lemma cs_on: "clientSubscriptions (on sub req st) = clientSubscriptions st"
  by (simp add: on_def)

lemma cs_start: "clientSubscriptions (start sub st) = clientSubscriptions st"
  by (simp add: start_def)


lemma subs_respond_error:
  "subscriptions (respond_error opts i t p inp cause st) = subscriptions st"
  by (simp add: respond_error_def Let_def respond_def onError_def)





lemma responses_respond_error:
  "responses (respond_error opts i t p inp cause st) =
     responses st @ [Failure i (getErrorShape opts \<lparr>shape_error = getErrorFromUnknown cause,
        shape_type = Some t, shape_path = Some p, shape_input = inp\<rparr>)]"
  by (simp add: respond_error_def Let_def respond_def onError_def)


lemma tracking7_eq:
  "tracking7 = \<lparr>clientSubscriptions = [(JNumber (Finite 7), 0)],
     subscriptions = (\<lambda>sub. \<lparr>started = False, destroyed = False, handlers = None\<rparr>)
        (0 := \<lparr>started = True, destroyed = False, handlers = Some subscribe7\<rparr>),
     responses = [Result (JNumber (Finite 7)) Started], reported = [], handled = [subscribe7]\<rparr>"
  by (simp add: tracking7_def awaiting7_def subscribe7_def returns_subscription_def initial_state_def
      Let_def respond_def on_def start_def Map_get_def Map_set_def)

subsection \<open>A duplicate id\<close>



subsection \<open>Entries of the map\<close>

lemma update_member: "(k, v) \<in> set (AList.update k v al)"
  by (induction al) auto

lemma Map_set_member: "(k, v) \<in> set (Map_set k v m)"
  by (simp add: Map_set_def update_member)

lemma Map_get_Map_set: "\<not> by_identity k \<Longrightarrow> Map_get (Map_set k v m) k = Some v"
  by (simp add: Map_get_def Map_set_def update_conv')

lemma Map_get_Map_delete: "Map_get (Map_delete k m) k = None"
  by (simp add: Map_get_def Map_delete_def delete_conv')

lemma Map_delete_identity: "by_identity k \<Longrightarrow> Map_delete k m = m"
  by (simp add: Map_delete_def)

lemma Map_delete_removes: "\<not> by_identity k \<Longrightarrow> k \<notin> fst ` set (Map_delete k m)"
  by (simp add: Map_delete_def delete_notin_dom)

lemma cs_handleRequest_Stop:
  assumes "id' \<noteq> JNull"
  shows "clientSubscriptions (snd (handleRequest opts aw (Stop id') st)) =
           Map_delete id' (clientSubscriptions st)"
  using assms by (simp add: Let_def cs_destroy split: option.split)

lemma cs_close: "clientSubscriptions (close opts st) = []"
  by (simp add: close_def)

lemma cs_handleRequest_Call:
  "clientSubscriptions (snd (handleRequest opts aw (Call id' ty pth inp) st)) = clientSubscriptions st"
  by (simp add: Let_def)

lemma cs_resume_AwaitProcedure:
  "clientSubscriptions (snd (resume opts (AwaitProcedure id' ty pth inp aw) st)) =
     (case callProcedure aw of
        ReturnedSubscription sub \<Rightarrow>
          if Map_get (clientSubscriptions st) id' = None
          then Map_set id' sub (clientSubscriptions st)
          else clientSubscriptions st
      | Returned v \<Rightarrow> clientSubscriptions st
      | Threw e \<Rightarrow> clientSubscriptions st)"
  by (cases "callProcedure aw")
     (auto simp: Let_def cs_respond_error cs_respond cs_destroy cs_start cs_on)

lemma cs_resume_AwaitStart:
  "clientSubscriptions (snd (resume opts (AwaitStart id' ty pth inp failure) st)) = clientSubscriptions st"
  by (cases failure) (simp_all add: cs_respond_error)

lemma started_resume:
  assumes "Map_get (clientSubscriptions st) id' = None" and "callProcedure aw = ReturnedSubscription sub"
  shows "started (subscriptions (snd (resume opts (AwaitProcedure id' ty pth inp aw) st)) sub)"
  using assms by (simp add: Let_def start_def)

text \<open>
  C7, as the code has it. An entry of \<^verbatim>\<open>clientSubscriptions\<close> is created when the call
  for a subscription request with an untracked id resumes with the Subscription, in the
  step that also starts the subscription, and by nothing else in \<^verbatim>\<open>handleRequest\<close>. A
  \<^verbatim>\<open>subscription.stop\<close> removes the entry of its id when the id is compared by value
  (a number or a string; for an array or an object it removes nothing), and \<^verbatim>\<open>close()\<close>
  removes all entries. An event of the subscription (data, error or destroy) and
  \<^verbatim>\<open>destroy()\<close> itself leave the map as it is.
\<close>

theorem tracking:
  assumes "id' \<noteq> JNull"
  shows "clientSubscriptions (snd (handleRequest opts aw (Call id' ty pth inp) st)) = clientSubscriptions st \<and>
         clientSubscriptions (snd (resume opts (AwaitProcedure id' ty pth inp aw) st)) =
           (case callProcedure aw of
              ReturnedSubscription sub \<Rightarrow>
                if Map_get (clientSubscriptions st) id' = None
                then Map_set id' sub (clientSubscriptions st)
                else clientSubscriptions st
            | Returned v \<Rightarrow> clientSubscriptions st
            | Threw e \<Rightarrow> clientSubscriptions st) \<and>
         (Map_get (clientSubscriptions st) id' = None \<and> callProcedure aw = ReturnedSubscription sub \<longrightarrow>
            (id', sub) \<in> set (clientSubscriptions (snd (resume opts (AwaitProcedure id' ty pth inp aw) st))) \<and>
            started (subscriptions (snd (resume opts (AwaitProcedure id' ty pth inp aw) st)) sub) \<and>
            (\<not> by_identity id' \<longrightarrow>
               Map_get (clientSubscriptions (snd (resume opts (AwaitProcedure id' ty pth inp aw) st))) id' =
                 Some sub)) \<and>
         clientSubscriptions (snd (resume opts (AwaitStart id' ty pth inp failure) st)) = clientSubscriptions st \<and>
         clientSubscriptions (snd (handleRequest opts aw (Stop id') st)) =
           Map_delete id' (clientSubscriptions st) \<and>
         Map_get (clientSubscriptions (snd (handleRequest opts aw (Stop id') st))) id' = None \<and>
         (\<not> by_identity id' \<longrightarrow>
            id' \<notin> fst ` set (clientSubscriptions (snd (handleRequest opts aw (Stop id') st)))) \<and>
         (by_identity id' \<longrightarrow>
            clientSubscriptions (snd (handleRequest opts aw (Stop id') st)) = clientSubscriptions st) \<and>
         clientSubscriptions (close opts st) = [] \<and>
         clientSubscriptions (emit opts sub ev st) = clientSubscriptions st \<and>
         clientSubscriptions (destroy opts sub st) = clientSubscriptions st"
proof -
  have a: "(id', sub) \<in> set (clientSubscriptions (snd (resume opts (AwaitProcedure id' ty pth inp aw) st))) \<and>
      started (subscriptions (snd (resume opts (AwaitProcedure id' ty pth inp aw) st)) sub) \<and>
      (\<not> by_identity id' \<longrightarrow>
         Map_get (clientSubscriptions (snd (resume opts (AwaitProcedure id' ty pth inp aw) st))) id' = Some sub)"
    if n: "Map_get (clientSubscriptions st) id' = None" and r: "callProcedure aw = ReturnedSubscription sub"
    unfolding cs_resume_AwaitProcedure using n r started_resume [OF n r, of opts ty pth inp]
    by (simp add: Map_set_member Map_get_Map_set del: resume.simps)
  show ?thesis
    unfolding cs_handleRequest_Stop [OF assms] cs_handleRequest_Call cs_resume_AwaitStart
    using a
    by (simp add: cs_resume_AwaitProcedure Map_get_Map_delete Map_delete_removes Map_delete_identity
        cs_close cs_emit cs_destroy del: resume.simps handleRequest.simps)
qed

theorem tracking_witness:
  "JNumber (Finite 7) \<noteq> JNull \<and>
   Map_get (clientSubscriptions (initial_state :: shape_opts handler_state)) (JNumber (Finite 7)) = None \<and>
   callProcedure (returns_subscription 0) = ReturnedSubscription 0 \<and>
   \<not> by_identity (JNumber (Finite 7)) \<and>
   clientSubscriptions (snd (handleRequest example_opts (returns_subscription 0) subscribe7 initial_state)) = [] \<and>
   clientSubscriptions (snd (resume example_opts (awaiting7 0)
      (snd (handleRequest example_opts (returns_subscription 0) subscribe7 initial_state)))) =
     [(JNumber (Finite 7), 0)] \<and>
   clientSubscriptions (snd (handleRequest example_opts (returns_subscription 0) stop7 tracking7)) = [] \<and>
   clientSubscriptions (close example_opts tracking7) = []"
  using tracking [of "JNumber (Finite 7)" example_opts "returns_subscription 0" Subscription
      "''randomNumber''" JUndefined "initial_state :: shape_opts handler_state" 0 None DestroyEvent]
    tracking [of "JNumber (Finite 7)" example_opts "returns_subscription 0" Subscription
      "''randomNumber''" JUndefined tracking7 0 None DestroyEvent]
  unfolding tracking7_def [symmetric] subscribe7_def [symmetric] awaiting7_def [symmetric] stop7_def [symmetric]
  by (simp add: tracking7_eq returns_subscription_def initial_state_def Map_get_def Map_delete_def
      tracking7_def [symmetric] del: handleRequest.simps resume.simps)

text \<open>
  An id that is an array: a second subscription request whose id is an equal array is
  accepted beside the first, and a stop whose id is an equal array removes neither.
\<close>

lemma array_ids:
  "clientSubscriptions (snd (resume example_opts
      (AwaitProcedure (JArray [JNumber (Finite 1)]) Subscription ''randomNumber'' JUndefined
        (returns_subscription 1))
      (snd (resume example_opts
        (AwaitProcedure (JArray [JNumber (Finite 1)]) Subscription ''randomNumber'' JUndefined
          (returns_subscription 0))
        initial_state)))) =
     [(JArray [JNumber (Finite 1)], 0), (JArray [JNumber (Finite 1)], 1)] \<and>
   clientSubscriptions (snd (handleRequest example_opts (returns_subscription 0)
      (Stop (JArray [JNumber (Finite 1)]))
      (initial_state\<lparr>clientSubscriptions :=
         [(JArray [JNumber (Finite 1)], 0), (JArray [JNumber (Finite 1)], 1)]\<rparr>))) =
     [(JArray [JNumber (Finite 1)], 0), (JArray [JNumber (Finite 1)], 1)]"
  by (simp add: returns_subscription_def initial_state_def example_opts_def Map_get_def Map_set_def
      Map_delete_def on_def start_def respond_def Let_def)

text \<open>
  After an error event of the subscription tracked for id \<open>7\<close> the error envelope is
  sent and the id is still in the map.
\<close>

theorem tracking_error_event:
  "Map_get (clientSubscriptions tracking7) (JNumber (Finite 7)) = Some 0 \<and>
   emit example_opts 0 (ErrorEvent (Error ''boom'')) tracking7 =
     tracking7\<lparr>responses := [Result (JNumber (Finite 7)) Started,
        Failure (JNumber (Finite 7))
          \<lparr>shape_error = TRPCError INTERNAL_SERVER_ERROR None (Some (Error ''boom'')),
           shape_type = Some Subscription, shape_path = Some ''randomNumber'', shape_input = JUndefined\<rparr>]\<rparr> \<and>
   Map_get (clientSubscriptions (emit example_opts 0 (ErrorEvent (Error ''boom'')) tracking7))
     (JNumber (Finite 7)) = Some 0"
  by (simp add: tracking7_eq emit_def subscribe7_def respond_error_def respond_def onError_def
      example_opts_def Map_get_def)

subsection \<open>A batch\<close>

lemma parseMessages_fails:
  "m \<in> set msgs \<Longrightarrow> parseMessage m d = Inl e \<Longrightarrow> \<exists>cause. parseMessages d msgs = Inl cause"
  by (induction msgs) (auto split: sum.split)

lemma parseMessages_map:
  "(parseMessages d msgs = Inr reqs) = (map (\<lambda>m. parseMessage m d) msgs = map Inr reqs)"
proof (induction msgs arbitrary: reqs)
  case Nil
  show ?case by auto
next
  case (Cons m msgs)
  show ?case
  proof (cases "parseMessage m d")
    case (Inl e)
    then show ?thesis by (cases reqs) auto
  next
    case (Inr req)
    show ?thesis
    proof (cases "parseMessages d msgs")
      case (Inl e)
      then have "\<And>rs. map (\<lambda>m. parseMessage m d) msgs \<noteq> map Inr rs" using Cons.IH by simp
      then show ?thesis using Inl Inr by (cases reqs) auto
    next
      case (Inr rs)
      then have "map (\<lambda>m. parseMessage m d) msgs = map Inr rs" using Cons.IH by simp
      then show ?thesis using Inr \<open>parseMessage m d = Inr req\<close>
        by (cases reqs) (auto simp: inj_map_eq_map [OF inj_Inr])
    qed
  qed
qed

lemma handled_respond: "handled (respond json st) = handled st"
  by (simp add: respond_def)

lemma handled_respond_error: "handled (respond_error opts i t p inp cause st) = handled st"
  by (simp add: respond_error_def Let_def respond_def onError_def)

lemma handled_handle_event: "handled (handle_event opts req ev st) = handled st"
  by (cases req; cases ev) (simp_all add: handled_respond handled_respond_error)

lemma handled_destroy: "handled (destroy opts sub st) = handled st"
  by (simp add: destroy_def emit_def handled_handle_event split: option.split)

lemma handled_respond_parse_error: "handled (respond_parse_error opts cause st) = handled st"
  by (simp add: respond_parse_error_def respond_def)

lemma handled_handleRequest: "handled (snd (handleRequest opts aw req st)) = handled st @ [req]"
  by (cases req) (simp_all add: Let_def handled_destroy split: option.split)

lemma handled_resume: "handled (snd (resume opts t st)) = handled st"
proof (cases t)
  case (AwaitProcedure i ty p inp aw)
  then show ?thesis
    by (cases "callProcedure aw")
       (simp_all add: Let_def handled_respond handled_respond_error handled_destroy on_def start_def)
next
  case (AwaitStart i ty p inp failure)
  then show ?thesis by (cases failure) (simp_all add: handled_respond_error)
qed

lemma anonymous_Stop: "anonymous (Stop j) = (j = JNull)"
  by (simp add: anonymous_def)

lemma anonymous_Call: "anonymous (Call j ty p inp) = (j = JNull)"
  by (simp add: anonymous_def)

lemma progress_handleRequest:
  "fst (handleRequest opts aw req st) =
     (if anonymous req then Rejected id_required
      else case req of Stop i \<Rightarrow> Completed | Call i ty p inp \<Rightarrow> Suspended (AwaitProcedure i ty p inp aw))"
  by (cases req) (simp_all add: Let_def id_required_def anonymous_Stop anonymous_Call)

lemma handleRequests_result:
  "fst (handleRequests opts aw i reqs st) = map (\<lambda>r. id_required) (filter anonymous reqs) \<and>
   fst (snd (handleRequests opts aw i reqs st)) = suspended aw i reqs"
proof (induction reqs arbitrary: i st)
  case Nil
  show ?case by simp
next
  case (Cons req reqs)
  obtain pr st1 where h: "handleRequest opts (aw i) req st = (pr, st1)"
    by (cases "handleRequest opts (aw i) req st")
  have pr: "pr = (if anonymous req then Rejected id_required
      else case req of Stop j \<Rightarrow> Completed | Call j ty p inp \<Rightarrow> Suspended (AwaitProcedure j ty p inp (aw i)))"
    using progress_handleRequest [of opts "aw i" req st] h by simp
  obtain rs ts st2 where g: "handleRequests opts aw (Suc i) reqs st1 = (rs, ts, st2)"
    by (cases "handleRequests opts aw (Suc i) reqs st1") auto
  have rs: "rs = map (\<lambda>r. id_required) (filter anonymous reqs)" and ts: "ts = suspended aw (Suc i) reqs"
    using Cons.IH [of "Suc i" st1] g by simp_all
  show ?case
  proof (cases req)
    case (Stop j)
    then show ?thesis using h g pr rs ts
      by (simp add: anonymous_Stop del: handleRequest.simps)
  next
    case (Call j ty p inp)
    then show ?thesis using h g pr rs ts
      by (simp add: anonymous_Call del: handleRequest.simps)
  qed
qed

lemma handled_handleRequests:
  "handled (snd (snd (handleRequests opts aw i reqs st))) = handled st @ reqs"
proof (induction reqs arbitrary: i st)
  case Nil
  show ?case by simp
next
  case (Cons req reqs)
  obtain pr st1 where h: "handleRequest opts (aw i) req st = (pr, st1)"
    by (cases "handleRequest opts (aw i) req st")
  have "handled st1 = handled st @ [req]" using handled_handleRequest [of opts "aw i" req st] h by simp
  moreover obtain rs ts st2 where g: "handleRequests opts aw (Suc i) reqs st1 = (rs, ts, st2)"
    by (cases "handleRequests opts aw (Suc i) reqs st1") auto
  ultimately show ?case using Cons.IH [of "Suc i" st1] h
    by (cases pr) (simp_all del: handleRequest.simps)
qed

lemma on_message_parsed:
  assumes "parseMessages (deserialize opts) msgs = Inr reqs"
  shows "on_message opts aw (Inr (JArray msgs)) st =
           \<lparr>listener = (if list_ex anonymous reqs then Rejecting id_required
                         else if suspended aw 0 reqs = [] then Finished else Awaiting),
            pending_calls = suspended aw 0 reqs,
            hstate = snd (snd (handleRequests opts aw 0 reqs st))\<rparr>"
proof -
  obtain rs ts st1 where g: "handleRequests opts aw 0 reqs st = (rs, ts, st1)"
    by (cases "handleRequests opts aw 0 reqs st") auto
  have rs: "rs = map (\<lambda>r. id_required) (filter anonymous reqs)" and ts: "ts = suspended aw 0 reqs"
    using handleRequests_result [of opts aw 0 reqs st] g by simp_all
  have ex: "list_ex anonymous reqs = (filter anonymous reqs \<noteq> [])"
    by (induction reqs) auto
  show ?thesis
  proof (cases "filter anonymous reqs")
    case Nil
    then show ?thesis using assms g rs ts ex by (simp add: on_message_def)
  next
    case (Cons r rest)
    then show ?thesis using assms g rs ts ex by (simp add: on_message_def)
  qed
qed

lemma handled_step: "handled (hstate (step opts t c)) = handled (hstate t)"
proof (cases c)
  case (Member k)
  obtain nxt st1 where r: "resume opts (pending_calls t ! k) (hstate t) = (nxt, st1)"
    by (cases "resume opts (pending_calls t ! k) (hstate t)")
  have "handled st1 = handled (hstate t)"
    using handled_resume [of opts "pending_calls t ! k" "hstate t"] r by simp
  then show ?thesis using Member r by (simp add: Let_def del: resume.simps)
next
  case Listener
  then show ?thesis by (cases "listener t") (simp_all add: handled_respond_parse_error)
qed

lemma handled_advance: "handled (hstate (advance opts schedule t)) = handled (hstate t)"
  unfolding advance_def
  by (induction schedule arbitrary: t) (simp_all add: handled_step del: step.simps)

lemma settles_step: "settles_when_idle t \<Longrightarrow> settles_when_idle (step opts t c)"
proof (cases c)
  case (Member k)
  assume s: "settles_when_idle t"
  obtain nxt st1 where r: "resume opts (pending_calls t ! k) (hstate t) = (nxt, st1)"
    by (cases "resume opts (pending_calls t ! k) (hstate t)")
  show ?thesis using s Member r
    by (cases "listener t")
       (auto simp: settles_when_idle_def Let_def simp del: resume.simps)
next
  case Listener
  assume "settles_when_idle t"
  then show ?thesis using Listener
    by (cases "listener t") (simp_all add: settles_when_idle_def)
qed

lemma settles_advance: "settles_when_idle t \<Longrightarrow> settles_when_idle (advance opts schedule t)"
  unfolding advance_def
  by (induction schedule arbitrary: t) (simp_all add: settles_step del: step.simps)

lemma settles_Finished: "settles_when_idle t \<Longrightarrow> (listener t = Finished) = (pending_calls t = [])"
  by (cases "listener t") (simp_all add: settles_when_idle_def)

lemma batch_parse_fails:
  assumes m: "m \<in> set msgs" and e: "parseMessage m (deserialize opts) = Inl e"
  shows "\<exists>cause. on_message opts aw (Inr (JArray msgs)) st =
           \<lparr>listener = Finished, pending_calls = [], hstate = respond_parse_error opts cause st\<rparr>"
proof -
  obtain cause where "parseMessages (deserialize opts) msgs = Inl cause"
    using parseMessages_fails [OF m e] by blast
  then have "on_message opts aw (Inr (JArray msgs)) st =
      \<lparr>listener = Finished, pending_calls = [], hstate = respond_parse_error opts cause st\<rparr>"
    by (simp add: on_message_def)
  then show ?thesis by blast
qed

lemma respond_parse_error_only_responds:
  "handled (respond_parse_error opts cause st) = handled st \<and>
   clientSubscriptions (respond_parse_error opts cause st) = clientSubscriptions st \<and>
   subscriptions (respond_parse_error opts cause st) = subscriptions st \<and>
   responses (respond_parse_error opts cause st) =
     responses st @ [Failure JNull (getErrorShape opts
       \<lparr>shape_error = TRPCError PARSE_ERROR None (Some cause), shape_type = None,
        shape_path = None, shape_input = JUndefined\<rparr>)]"
  by (simp add: respond_parse_error_def respond_def)

lemma batch_dispatched:
  assumes p: "map (\<lambda>m. parseMessage m (deserialize opts)) msgs = map Inr reqs"
    and t: "t = on_message opts aw (Inr (JArray msgs)) st"
  shows "handled (hstate t) = handled st @ reqs"
    and "pending_calls t = suspended aw 0 reqs"
    and "listener t = (if list_ex anonymous reqs then Rejecting id_required
                       else if suspended aw 0 reqs = [] then Finished else Awaiting)"
    and "handled (hstate (advance opts schedule t)) = handled st @ reqs"
    and "\<not> list_ex anonymous reqs \<Longrightarrow>
           (listener (advance opts schedule t) = Finished) = (pending_calls (advance opts schedule t) = [])"
    and "list_ex anonymous reqs \<Longrightarrow>
           advance opts [Listener] t =
             t\<lparr>listener := Finished, hstate := respond_parse_error opts id_required (hstate t)\<rparr>"
proof -
  have q: "parseMessages (deserialize opts) msgs = Inr reqs" using p by (simp add: parseMessages_map)
  note eq = on_message_parsed [OF q, of aw st, folded t]
  show h: "handled (hstate t) = handled st @ reqs"
    by (simp add: eq handled_handleRequests)
  show "pending_calls t = suspended aw 0 reqs" by (simp add: eq)
  show l: "listener t = (if list_ex anonymous reqs then Rejecting id_required
      else if suspended aw 0 reqs = [] then Finished else Awaiting)"
    by (simp add: eq)
  show "handled (hstate (advance opts schedule t)) = handled st @ reqs"
    by (simp add: handled_advance h)
  show "(listener (advance opts schedule t) = Finished) = (pending_calls (advance opts schedule t) = [])"
    if "\<not> list_ex anonymous reqs"
  proof -
    have "settles_when_idle t" using that by (simp add: eq settles_when_idle_def)
    then show ?thesis by (intro settles_Finished settles_advance)
  qed
  show "advance opts [Listener] t =
      t\<lparr>listener := Finished, hstate := respond_parse_error opts id_required (hstate t)\<rparr>"
    if "list_ex anonymous reqs"
    using that l by (simp add: advance_def)
qed

lemma threw_only_responds:
  assumes "callProcedure aw = Threw cause"
  shows "resume opts (AwaitProcedure id' ty pth inp aw) st =
           (None, respond_error opts id' ty pth inp cause st)"
  using assms by simp

lemma either_order:
  assumes "pending_calls t = [AwaitProcedure i1 ty1 p1 in1 aw1, AwaitProcedure i2 ty2 p2 in2 aw2]"
    and "callProcedure aw1 = Returned r1" and "callProcedure aw2 = Returned r2"
  shows "responses (hstate (advance opts [Member 0, Member 0] t)) =
           responses (hstate t) @ [Result i1 (Data r1), Result i2 (Data r2)]"
    and "responses (hstate (advance opts [Member 1, Member 0] t)) =
           responses (hstate t) @ [Result i2 (Data r2), Result i1 (Data r1)]"
  using assms by (simp_all add: advance_def respond_def Let_def)

lemmas parse_defs = parseMessage_def passing_def assertIsObject_def
  assertIsRequestId_def assertIsJSONRPC2OrUndefined_def assertIsProcedureType_def
  assertIsString_def procedureType_of_def Let_def

lemma parse_hello: "parseMessage hello_envelope Inr = Inr hello_request"
  by (simp add: parse_defs hello_envelope_def hello_request_def)

lemma parse_pathless: "parseMessage pathless_envelope Inr = Inl (Error ''Invalid string'')"
  by (simp add: parse_defs pathless_envelope_def)

lemma parse_subscribe7: "parseMessage subscribe7_envelope Inr = Inr subscribe7"
  by (simp add: parse_defs subscribe7_envelope_def subscribe7_def)

lemma parse_stop7: "parseMessage stop7_envelope Inr = Inr stop7"
  by (simp add: parse_defs stop7_envelope_def stop7_def)

lemma parse_anonymous: "parseMessage anonymous_envelope Inr = Inr (Stop JNull)"
  by (simp add: parse_defs anonymous_envelope_def)

lemmas run_defs = on_message_def advance_def example_opts_def initial_state_def
  respond_parse_error_def respond_def returns_hello_def returns_subscription_def
  hello_request_def subscribe7_def stop7_def awaiting_hello_def awaiting7_def id_required_def
  Map_get_def Map_set_def Map_delete_def on_def start_def Let_def

text \<open>
  C8, as the code has it. The members of an array are all parsed before
  \<^verbatim>\<open>handleRequest\<close> is called on any of them. If one member fails to parse,
  \<^verbatim>\<open>handleRequest\<close> is called on none: the handler sends one \<^verbatim>\<open>PARSE_ERROR\<close> envelope
  with id \<^verbatim>\<open>null\<close>, and the subscriptions are as before. If all members parse,
  \<^verbatim>\<open>handleRequest\<close> is called on every one, in array order: a stop request and a
  request without an id are dealt with inside that call, every other member is suspended
  at its procedure call, and no later step calls \<^verbatim>\<open>handleRequest\<close> again. The suspended
  members resume in the order in which their procedure calls settle: of two pending
  queries either may answer first. A member whose procedure call throws adds its own error
  envelope and changes neither the map nor a Subscription object. When every member has an
  id, the listener is finished exactly when no call is pending any more. When a member
  has no id, the listener posts a \<^verbatim>\<open>PARSE_ERROR\<close> envelope with id \<^verbatim>\<open>null\<close> and is
  finished, while the suspended members are still pending.
\<close>

theorem batch:
  assumes "t = on_message opts aw (Inr (JArray msgs)) st"
  shows "(m \<in> set msgs \<and> parseMessage m (deserialize opts) = Inl e \<longrightarrow>
            (\<exists>cause. t = \<lparr>listener = Finished, pending_calls = [],
                          hstate = respond_parse_error opts cause st\<rparr>) \<and>
            handled (hstate t) = handled st \<and>
            clientSubscriptions (hstate t) = clientSubscriptions st \<and>
            subscriptions (hstate t) = subscriptions st \<and>
            (\<exists>cause. responses (hstate t) = responses st @ [Failure JNull (getErrorShape opts
               \<lparr>shape_error = TRPCError PARSE_ERROR None (Some cause), shape_type = None,
                shape_path = None, shape_input = JUndefined\<rparr>)])) \<and>
         (map (\<lambda>m. parseMessage m (deserialize opts)) msgs = map Inr reqs \<longrightarrow>
            handled (hstate t) = handled st @ reqs \<and>
            pending_calls t = suspended aw 0 reqs \<and>
            listener t = (if list_ex anonymous reqs then Rejecting id_required
                          else if suspended aw 0 reqs = [] then Finished else Awaiting) \<and>
            handled (hstate (advance opts schedule t)) = handled st @ reqs \<and>
            (\<not> list_ex anonymous reqs \<longrightarrow>
               (listener (advance opts schedule t) = Finished) = (pending_calls (advance opts schedule t) = [])) \<and>
            (list_ex anonymous reqs \<longrightarrow>
               advance opts [Listener] t =
                 t\<lparr>listener := Finished, hstate := respond_parse_error opts id_required (hstate t)\<rparr>)) \<and>
         (callProcedure aw0 = Threw thrown \<longrightarrow>
            fst (resume opts (AwaitProcedure id' ty pth inp aw0) st0) = None \<and>
            clientSubscriptions (snd (resume opts (AwaitProcedure id' ty pth inp aw0) st0)) = clientSubscriptions st0 \<and>
            subscriptions (snd (resume opts (AwaitProcedure id' ty pth inp aw0) st0)) = subscriptions st0 \<and>
            responses (snd (resume opts (AwaitProcedure id' ty pth inp aw0) st0)) =
              responses st0 @ [Failure id' (getErrorShape opts \<lparr>shape_error = getErrorFromUnknown thrown,
                shape_type = Some ty, shape_path = Some pth, shape_input = inp\<rparr>)]) \<and>
         (pending_calls t2 = [AwaitProcedure i1 ty1 p1 in1 aw1, AwaitProcedure i2 ty2 p2 in2 aw2] \<and>
          callProcedure aw1 = Returned r1 \<and> callProcedure aw2 = Returned r2 \<longrightarrow>
            responses (hstate (advance opts [Member 0, Member 0] t2)) =
              responses (hstate t2) @ [Result i1 (Data r1), Result i2 (Data r2)] \<and>
            responses (hstate (advance opts [Member 1, Member 0] t2)) =
              responses (hstate t2) @ [Result i2 (Data r2), Result i1 (Data r1)])"
proof -
  have a: "(\<exists>cause. t = \<lparr>listener = Finished, pending_calls = [],
                          hstate = respond_parse_error opts cause st\<rparr>) \<and>
      handled (hstate t) = handled st \<and>
      clientSubscriptions (hstate t) = clientSubscriptions st \<and>
      subscriptions (hstate t) = subscriptions st \<and>
      (\<exists>cause. responses (hstate t) = responses st @ [Failure JNull (getErrorShape opts
         \<lparr>shape_error = TRPCError PARSE_ERROR None (Some cause), shape_type = None,
          shape_path = None, shape_input = JUndefined\<rparr>)])"
    if m: "m \<in> set msgs" and e: "parseMessage m (deserialize opts) = Inl e"
  proof -
    obtain cause where c: "t = \<lparr>listener = Finished, pending_calls = [],
        hstate = respond_parse_error opts cause st\<rparr>"
      using batch_parse_fails [OF m e, of aw st] assms by auto
    have "handled (hstate t) = handled st \<and>
        clientSubscriptions (hstate t) = clientSubscriptions st \<and>
        subscriptions (hstate t) = subscriptions st \<and>
        responses (hstate t) = responses st @ [Failure JNull (getErrorShape opts
         \<lparr>shape_error = TRPCError PARSE_ERROR None (Some cause), shape_type = None,
          shape_path = None, shape_input = JUndefined\<rparr>)]"
      unfolding c using respond_parse_error_only_responds [of opts cause st] by simp
    then show ?thesis using c by blast
  qed
  have c: "fst (resume opts (AwaitProcedure id' ty pth inp aw0) st0) = None \<and>
      clientSubscriptions (snd (resume opts (AwaitProcedure id' ty pth inp aw0) st0)) = clientSubscriptions st0 \<and>
      subscriptions (snd (resume opts (AwaitProcedure id' ty pth inp aw0) st0)) = subscriptions st0 \<and>
      responses (snd (resume opts (AwaitProcedure id' ty pth inp aw0) st0)) =
        responses st0 @ [Failure id' (getErrorShape opts \<lparr>shape_error = getErrorFromUnknown thrown,
          shape_type = Some ty, shape_path = Some pth, shape_input = inp\<rparr>)]"
    if "callProcedure aw0 = Threw thrown"
    unfolding threw_only_responds [OF that]
    by (simp add: cs_respond_error subs_respond_error responses_respond_error)
  have b: "handled (hstate t) = handled st @ reqs \<and>
      pending_calls t = suspended aw 0 reqs \<and>
      listener t = (if list_ex anonymous reqs then Rejecting id_required
                    else if suspended aw 0 reqs = [] then Finished else Awaiting) \<and>
      handled (hstate (advance opts schedule t)) = handled st @ reqs \<and>
      (\<not> list_ex anonymous reqs \<longrightarrow>
         (listener (advance opts schedule t) = Finished) = (pending_calls (advance opts schedule t) = [])) \<and>
      (list_ex anonymous reqs \<longrightarrow>
         advance opts [Listener] t =
           t\<lparr>listener := Finished, hstate := respond_parse_error opts id_required (hstate t)\<rparr>)"
    if p: "map (\<lambda>m. parseMessage m (deserialize opts)) msgs = map Inr reqs"
    using batch_dispatched [OF p assms] by blast
  have d: "responses (hstate (advance opts [Member 0, Member 0] t2)) =
        responses (hstate t2) @ [Result i1 (Data r1), Result i2 (Data r2)] \<and>
      responses (hstate (advance opts [Member 1, Member 0] t2)) =
        responses (hstate t2) @ [Result i2 (Data r2), Result i1 (Data r1)]"
    if "pending_calls t2 = [AwaitProcedure i1 ty1 p1 in1 aw1, AwaitProcedure i2 ty2 p2 in2 aw2] \<and>
        callProcedure aw1 = Returned r1 \<and> callProcedure aw2 = Returned r2"
    using that either_order [of t2 i1 ty1 p1 in1 aw1 i2 ty2 p2 in2 aw2 r1 r2 opts] by blast
  from a b c d show ?thesis by blast
qed

theorem batch_witness:
  "pathless_envelope \<in> set [hello_envelope, pathless_envelope] \<and>
   parseMessage pathless_envelope (deserialize example_opts) = Inl (Error ''Invalid string'') \<and>
   on_message example_opts returns_hello (Inr (JArray [hello_envelope, pathless_envelope])) tracking7 =
     \<lparr>listener = Finished, pending_calls = [],
      hstate = respond_parse_error example_opts (Error ''Invalid string'') tracking7\<rparr> \<and>
   map (\<lambda>m. parseMessage m (deserialize example_opts)) [subscribe7_envelope, stop7_envelope] =
     map Inr [subscribe7, stop7] \<and>
   \<not> list_ex anonymous [subscribe7, stop7] \<and>
   pending_calls (on_message example_opts (\<lambda>i. returns_subscription 0)
      (Inr (JArray [subscribe7_envelope, stop7_envelope])) initial_state) = [awaiting7 0] \<and>
   clientSubscriptions (hstate (advance example_opts [Member 0, Member 0]
      (on_message example_opts (\<lambda>i. returns_subscription 0)
        (Inr (JArray [subscribe7_envelope, stop7_envelope])) initial_state))) = [(JNumber (Finite 7), 0)] \<and>
   responses (hstate (advance example_opts [Member 0, Member 0]
      (on_message example_opts (\<lambda>i. returns_subscription 0)
        (Inr (JArray [subscribe7_envelope, stop7_envelope])) initial_state))) =
     [Result (JNumber (Finite 7)) Started] \<and>
   listener (advance example_opts [Member 0]
      (on_message example_opts (\<lambda>i. returns_subscription 0)
        (Inr (JArray [subscribe7_envelope, stop7_envelope])) initial_state)) = Awaiting \<and>
   listener (advance example_opts [Member 0, Member 0]
      (on_message example_opts (\<lambda>i. returns_subscription 0)
        (Inr (JArray [subscribe7_envelope, stop7_envelope])) initial_state)) = Finished \<and>
   map (\<lambda>m. parseMessage m (deserialize example_opts)) [hello_envelope, anonymous_envelope] =
     map Inr [hello_request, Stop JNull] \<and>
   list_ex anonymous [hello_request, Stop JNull] \<and>
   listener (on_message example_opts returns_hello
      (Inr (JArray [hello_envelope, anonymous_envelope])) initial_state) = Rejecting id_required \<and>
   callProcedure throws_boom = Threw (Error ''boom'') \<and>
   clientSubscriptions (snd (resume example_opts
      (AwaitProcedure (JNumber (Finite 1)) Query ''hello'' JNull throws_boom) tracking7)) =
     [(JNumber (Finite 7), 0)] \<and>
   pending_calls (\<lparr>listener = Awaiting,
      pending_calls = [awaiting_hello (JNumber (Finite 1)), awaiting_hello (JNumber (Finite 2))],
      hstate = initial_state\<rparr> :: shape_opts processing) =
     [awaiting_hello (JNumber (Finite 1)), awaiting_hello (JNumber (Finite 2))] \<and>
   callProcedure (returns_hello 0) = Returned (JObject [(''text'', JString ''hello client'')]) \<and>
   responses (hstate (advance example_opts [Member 1, Member 0]
      (\<lparr>listener = Awaiting,
        pending_calls = [awaiting_hello (JNumber (Finite 1)), awaiting_hello (JNumber (Finite 2))],
        hstate = initial_state\<rparr> :: shape_opts processing))) =
     [Result (JNumber (Finite 2)) (Data (JObject [(''text'', JString ''hello client'')])),
      Result (JNumber (Finite 1)) (Data (JObject [(''text'', JString ''hello client'')]))]"
  using
    batch [OF refl, where opts = example_opts and aw = returns_hello
      and msgs = "[hello_envelope, pathless_envelope]" and st = tracking7
      and m = pathless_envelope and e = "Error ''Invalid string''"
      and reqs = "[]" and schedule = "[]"
      and ?aw0.0 = throws_boom and thrown = "Error ''boom''" and id' = "JNumber (Finite 1)"
      and ty = Query and pth = "''hello''" and inp = JNull and ?st0.0 = tracking7
      and ?t2.0 = "\<lparr>listener = Awaiting,
          pending_calls = [awaiting_hello (JNumber (Finite 1)), awaiting_hello (JNumber (Finite 2))],
          hstate = initial_state\<rparr>"
      and ?i1.0 = "JNumber (Finite 1)" and ?ty1.0 = Query and ?p1.0 = "''hello''"
      and ?in1.0 = "JObject [(''name'', JString ''client'')]" and ?aw1.0 = "returns_hello 0"
      and ?i2.0 = "JNumber (Finite 2)" and ?ty2.0 = Query and ?p2.0 = "''hello''"
      and ?in2.0 = "JObject [(''name'', JString ''client'')]" and ?aw2.0 = "returns_hello 0"
      and ?r1.0 = "JObject [(''text'', JString ''hello client'')]"
      and ?r2.0 = "JObject [(''text'', JString ''hello client'')]"]
    batch [OF refl, where opts = example_opts and aw = "\<lambda>i. returns_subscription 0"
      and msgs = "[subscribe7_envelope, stop7_envelope]" and st = "initial_state :: shape_opts handler_state"
      and reqs = "[subscribe7, stop7]" and schedule = "[Member 0, Member 0]"]
    batch [OF refl, where opts = example_opts and aw = returns_hello
      and msgs = "[hello_envelope, anonymous_envelope]" and st = "initial_state :: shape_opts handler_state"
      and reqs = "[hello_request, Stop JNull]" and schedule = "[]"]
  by (simp add: parse_hello parse_pathless parse_subscribe7 parse_stop7 parse_anonymous
      anonymous_def tracking7_eq throws_boom_def run_defs)

text \<open>
  The envelope that is answered when it comes alone is not dispatched when the member
  after it has no path. And when the member after it has no id, the listener answers
  \<^verbatim>\<open>PARSE_ERROR\<close> and is finished while the query is still pending; its answer comes
  afterwards.
\<close>

theorem batch_parse_failure:
  "handled (hstate (on_message example_opts returns_hello (Inr (JArray [hello_envelope])) initial_state)) =
     [hello_request] \<and>
   responses (hstate (advance example_opts [Member 0]
      (on_message example_opts returns_hello (Inr (JArray [hello_envelope])) initial_state))) =
     [Result (JNumber (Finite 1)) (Data (JObject [(''text'', JString ''hello client'')]))] \<and>
   handled (hstate (on_message example_opts returns_hello
      (Inr (JArray [hello_envelope, pathless_envelope])) initial_state)) = [] \<and>
   pending_calls (on_message example_opts returns_hello
      (Inr (JArray [hello_envelope, pathless_envelope])) initial_state) = [] \<and>
   responses (hstate (on_message example_opts returns_hello
      (Inr (JArray [hello_envelope, pathless_envelope])) initial_state)) =
     [Failure JNull \<lparr>shape_error = TRPCError PARSE_ERROR None (Some (Error ''Invalid string'')),
        shape_type = None, shape_path = None, shape_input = JUndefined\<rparr>] \<and>
   listener (advance example_opts [Listener] (on_message example_opts returns_hello
      (Inr (JArray [hello_envelope, anonymous_envelope])) initial_state)) = Finished \<and>
   pending_calls (advance example_opts [Listener] (on_message example_opts returns_hello
      (Inr (JArray [hello_envelope, anonymous_envelope])) initial_state)) =
     [awaiting_hello (JNumber (Finite 1))] \<and>
   responses (hstate (advance example_opts [Listener, Member 0] (on_message example_opts returns_hello
      (Inr (JArray [hello_envelope, anonymous_envelope])) initial_state))) =
     [Failure JNull \<lparr>shape_error = TRPCError PARSE_ERROR None (Some id_required),
        shape_type = None, shape_path = None, shape_input = JUndefined\<rparr>,
      Result (JNumber (Finite 1)) (Data (JObject [(''text'', JString ''hello client'')]))]"
  by (simp add: parse_hello parse_pathless parse_anonymous run_defs)

section \<open>Properties of a procedure call\<close>

subsection \<open>The chain of \<^verbatim>\<open>next\<close> functions\<close>

lemma snd_wrapCallSafe: "snd (wrapCallSafe x) = snd x"
  by (simp add: wrapCallSafe_def split: prod.split sum.split)

lemma fst_wrapCallSafe:
  "fst (wrapCallSafe x) =
     (case fst x of Inr data \<Rightarrow> data | Inl error \<Rightarrow> Some (ResultError (getErrorFromUnknown error)))"
  by (cases x) (simp add: wrapCallSafe_def split: sum.split)

lemma snd_call: "snd (call p opts) = snd (nextFns p opts 0 (middlewares p) None [])"
  by (simp add: call_def split: prod.split option.split middlewareResult.split)

lemma fst_call:
  "fst (nextFns p opts 0 (middlewares p) None []) = Some (ResultError e) \<Longrightarrow> fst (call p opts) = Inl e"
  by (cases "nextFns p opts 0 (middlewares p) None []") (simp add: call_def)

lemma resolverMiddleware_rejected:
  "parseInputFn p (rawInput opts) = Inl cause \<Longrightarrow>
     resolverMiddleware p opts c l =
       (Inl (TRPCError BAD_REQUEST None (Some cause)), l @ [ParseInputCall (rawInput opts)])"
  by (simp add: resolverMiddleware_def parseInput_def)

lemma resolverMiddleware_log:
  "snd (resolverMiddleware p opts c l) = l @ snd (resolverMiddleware p opts c [])"
  by (simp add: resolverMiddleware_def Let_def split: sum.split)

lemma resolverMiddleware_result:
  "fst (resolverMiddleware p opts c l) = fst (resolverMiddleware p opts c [])"
  by (simp add: resolverMiddleware_def Let_def split: sum.split)

lemma resolverMiddleware_steps:
  "parseInputFn p (rawInput opts) = Inr input \<Longrightarrow>
     filter is_step (snd (resolverMiddleware p opts c [])) = [ResolverCall c input]"
  by (simp add: resolverMiddleware_def parseInput_def Let_def split: sum.split)

lemma exec_no_resolver:
  assumes nxt: "\<And>c l. \<not> list_ex is_resolver l \<Longrightarrow> \<not> list_ex is_resolver (snd (nxt c l))"
  shows "\<not> list_ex is_resolver l \<Longrightarrow> \<not> list_ex is_resolver (snd (exec r nxt l))"
proof (induction r arbitrary: l)
  case (Return x)
  then show ?case by simp
next
  case (Throw x)
  then show ?case by simp
next
  case (Next c k)
  obtain r l1 where e: "nxt c l = (r, l1)" by (cases "nxt c l")
  have "\<not> list_ex is_resolver l1" using nxt [OF Next.prems, of c] e by simp
  then have "\<not> list_ex is_resolver (snd (exec (k r) nxt l1))"
    using Next.IH [of "k r" l1] by (simp add: rangeI)
  then show ?case using e by simp
qed

lemma nextFns_no_resolver:
  assumes "parseInputFn p (rawInput opts) = Inl cause"
  shows "\<not> list_ex is_resolver l \<Longrightarrow> \<not> list_ex is_resolver (snd (nextFns p opts i fns nextOpts l))"
proof (induction fns arbitrary: i nextOpts l)
  case Nil
  then show ?case
    by (simp add: snd_wrapCallSafe resolverMiddleware_rejected [OF assms])
next
  case (Cons fn fns)
  let ?c = "case nextOpts of Some c \<Rightarrow> c | None \<Rightarrow> ctx opts"
  have l: "\<not> list_ex is_resolver (l @ [MiddlewareCall i ?c])" using Cons.prems by simp
  have "\<not> list_ex is_resolver
          (snd (exec (fn (opts\<lparr>ctx := ?c\<rparr>) (meta p)) (nextFns p opts (Suc i) fns) (l @ [MiddlewareCall i ?c])))"
    using l by (rule exec_no_resolver [rotated]) (rule Cons.IH)
  then show ?case by (simp add: snd_wrapCallSafe Let_def)
qed

lemma nextFns_returnsNext:
  "nextFns p opts i (returnsNext n # fns) nextOpts l =
     nextFns p opts (Suc i) fns
       (n (opts\<lparr>ctx := (case nextOpts of Some c \<Rightarrow> c | None \<Rightarrow> ctx opts)\<rparr>) (meta p))
       (l @ [MiddlewareCall i (case nextOpts of Some c \<Rightarrow> c | None \<Rightarrow> ctx opts)])"
  by (simp add: returnsNext_def wrapCallSafe_def Let_def split: prod.split)

lemma nextFns_returnsNext_rejected:
  assumes "parseInputFn p (rawInput opts) = Inl cause"
  shows "fst (nextFns p opts i (map returnsNext ns) nextOpts l) =
           Some (ResultError (TRPCError BAD_REQUEST None (Some cause)))"
proof (induction ns arbitrary: i nextOpts l)
  case Nil
  show ?case by (simp add: resolverMiddleware_rejected [OF assms] wrapCallSafe_def)
next
  case (Cons n ns)
  show ?case by (simp add: nextFns_returnsNext Cons.IH del: nextFns.simps)
qed

lemma contexts_nonempty: "contexts opts mt c ns \<noteq> []"
  by (cases ns) simp_all

lemma snd_nextFns_callsNextOnce:
  "snd (nextFns p opts i (callsNextOnce m # fns) nextOpts l) =
     snd (nextFns p opts (Suc i) fns
       (fst m (opts\<lparr>ctx := (case nextOpts of Some c \<Rightarrow> c | None \<Rightarrow> ctx opts)\<rparr>) (meta p))
       (l @ [MiddlewareCall i (case nextOpts of Some c \<Rightarrow> c | None \<Rightarrow> ctx opts)]))"
  by (simp add: callsNextOnce_def snd_wrapCallSafe Let_def split: prod.split sum.split)

lemma butlast_contexts_Cons:
  "butlast (contexts opts mt c (n # ns)) =
     c # butlast (contexts opts mt (case n (opts\<lparr>ctx := c\<rparr>) mt of Some c1 \<Rightarrow> c1 | None \<Rightarrow> ctx opts) ns)"
  by (simp add: contexts_nonempty)

lemma last_contexts_Cons:
  "last (contexts opts mt c (n # ns)) =
     last (contexts opts mt (case n (opts\<lparr>ctx := c\<rparr>) mt of Some c1 \<Rightarrow> c1 | None \<Rightarrow> ctx opts) ns)"
  by (simp add: contexts_nonempty)

lemma nextFns_callsNextOnce_log:
  "snd (nextFns p opts i (map callsNextOnce ms) nextOpts l) =
     l @ middlewareCalls i
           (butlast (contexts opts (meta p) (case nextOpts of Some c \<Rightarrow> c | None \<Rightarrow> ctx opts) (map fst ms))) @
     snd (resolverMiddleware p opts
           (last (contexts opts (meta p) (case nextOpts of Some c \<Rightarrow> c | None \<Rightarrow> ctx opts) (map fst ms))) [])"
proof (induction ms arbitrary: i nextOpts l)
  case Nil
  show ?case
    using resolverMiddleware_log [of p opts _ l]
    by (simp add: snd_wrapCallSafe)
next
  case (Cons m ms)
  show ?case
    unfolding list.map snd_nextFns_callsNextOnce Cons.IH butlast_contexts_Cons last_contexts_Cons
    by (simp split: option.split)
qed

lemma nextFns_returnsNext_result:
  "fst (nextFns p opts i (map returnsNext ns) nextOpts l) =
     fst (wrapCallSafe (resolverMiddleware p opts
       (last (contexts opts (meta p) (case nextOpts of Some c \<Rightarrow> c | None \<Rightarrow> ctx opts) ns)) []))"
proof (induction ns arbitrary: i nextOpts l)
  case Nil
  show ?case
    by (simp add: fst_wrapCallSafe resolverMiddleware_result [of p opts _ l])
next
  case (Cons n ns)
  show ?case
    unfolding list.map nextFns_returnsNext Cons.IH last_contexts_Cons
    by (simp split: option.split)
qed

lemma returnsNext_callsNextOnce: "returnsNext n = callsNextOnce (n, \<lambda>opts mt r. Inr r)"
  by (simp add: returnsNext_def callsNextOnce_def)

lemma map_returnsNext:
  "map returnsNext ns = map callsNextOnce (map (\<lambda>n. (n, \<lambda>opts mt r. Inr r)) ns)"
  by (simp add: returnsNext_callsNextOnce)

lemma steps_middlewareCalls: "filter is_step (middlewareCalls i cs) = middlewareCalls i cs"
  by (induction cs arbitrary: i) simp_all

subsection \<open>Input that the parser rejects\<close>

text \<open>
  C1, as the code has it. When the input parser throws on the raw input, the resolver is
  not invoked, whatever the middlewares do, and the resolver's step of the chain fails
  with a \<^verbatim>\<open>BAD_REQUEST\<close> error carrying the thrown value as cause. When every middleware
  returns the result of \<^verbatim>\<open>next\<close> as it is (in particular when there is none),
  \<^verbatim>\<open>call\<close> fails with that error.
\<close>

theorem input_rejected:
  assumes "parseInputFn p (rawInput opts) = Inl cause"
  shows "\<not> list_ex is_resolver (snd (call p opts)) \<and>
         resolverMiddleware p opts c l =
           (Inl (TRPCError BAD_REQUEST None (Some cause)), l @ [ParseInputCall (rawInput opts)]) \<and>
         fst (call (p\<lparr>middlewares := map returnsNext ns\<rparr>) opts) =
           Inl (TRPCError BAD_REQUEST None (Some cause))"
proof -
  have a: "\<not> list_ex is_resolver (snd (call p opts))"
    unfolding snd_call using nextFns_no_resolver [OF assms, of "[]"] by simp
  let ?p = "p\<lparr>middlewares := map returnsNext ns\<rparr>"
  have r: "parseInputFn ?p (rawInput opts) = Inl cause" using assms by simp
  have "fst (nextFns ?p opts 0 (middlewares ?p) None []) =
          Some (ResultError (TRPCError BAD_REQUEST None (Some cause)))"
    using nextFns_returnsNext_rejected [OF r, of 0 ns None "[]"] by simp
  then have b: "fst (call ?p opts) = Inl (TRPCError BAD_REQUEST None (Some cause))"
    by (rule fst_call)
  from a b show ?thesis by (simp add: resolverMiddleware_rejected [OF assms])
qed

theorem input_rejected_witness:
  "parseInputFn hello (rawInput (greet (JNumber (Finite 1)))) = Inl (Error ''Expected string'') \<and>
   \<not> list_ex is_resolver (snd (call hello (greet (JNumber (Finite 1))))) \<and>
   fst (call (hello\<lparr>middlewares := [returnsNext as_user, returnsNext as_before]\<rparr>) (greet (JNumber (Finite 1)))) =
     Inl (TRPCError BAD_REQUEST None (Some (Error ''Expected string'')))"
  using input_rejected [of hello "greet (JNumber (Finite 1))" "Error ''Expected string''" JNull "[]"
      "[as_user, as_before]"]
  by (simp add: hello_def greet_def)

text \<open>
  A middleware that throws before it calls \<^verbatim>\<open>next\<close>: the parser rejects the input, yet
  \<^verbatim>\<open>call\<close> fails with the middleware's error, an \<^verbatim>\<open>INTERNAL_SERVER_ERROR\<close>. And a
  middleware that answers with a fallback when the rest of the chain failed: the parser
  is called and throws, yet \<^verbatim>\<open>call\<close> returns.
\<close>

theorem input_rejected_behind_middleware:
  "parseInputFn hello (rawInput (greet (JNumber (Finite 1)))) = Inl (Error ''Expected string'') \<and>
   call (hello\<lparr>middlewares := [authenticated]\<rparr>) (greet (JNumber (Finite 1))) =
     (Inl (TRPCError INTERNAL_SERVER_ERROR None (Some (Error ''Not authenticated''))),
      [MiddlewareCall 0 JNull]) \<and>
   call (hello\<lparr>middlewares := [fallback]\<rparr>) (greet (JNumber (Finite 1))) =
     (Inr JNull, [MiddlewareCall 0 JNull, ParseInputCall (JNumber (Finite 1))])"
  by (simp add: hello_def greet_def authenticated_def fallback_def call_def wrapCallSafe_def
      resolverMiddleware_def parseInput_def)

subsection \<open>Output that the parser rejects\<close>

lemma parsed_after_resolver_append:
  "parsed_after_resolver b (l @ l') =
     (parsed_after_resolver b l \<and>
      parsed_after_resolver (if l = [] then b else is_resolver (last l)) l')"
proof (induction l arbitrary: b)
  case Nil
  show ?case by simp
next
  case (Cons a l)
  show ?case by (cases a) (auto simp: Cons.IH)
qed

lemma parsed_after_resolver_step:
  "parsed_after_resolver b (snd (resolverMiddleware p opts c []))"
  by (simp add: resolverMiddleware_def Let_def split: sum.split)

lemma parsed_after_resolver_resolverMiddleware:
  "parsed_after_resolver False l \<Longrightarrow> parsed_after_resolver False (snd (resolverMiddleware p opts c l))"
  using resolverMiddleware_log [of p opts c l] parsed_after_resolver_step [of _ p opts c]
  by (simp add: parsed_after_resolver_append)

lemma parsed_after_resolver_exec:
  assumes nxt: "\<And>c l. parsed_after_resolver False l \<Longrightarrow> parsed_after_resolver False (snd (nxt c l))"
  shows "parsed_after_resolver False l \<Longrightarrow> parsed_after_resolver False (snd (exec r nxt l))"
proof (induction r arbitrary: l)
  case (Return x)
  then show ?case by simp
next
  case (Throw x)
  then show ?case by simp
next
  case (Next c k)
  obtain r l1 where e: "nxt c l = (r, l1)" by (cases "nxt c l")
  have "parsed_after_resolver False l1" using nxt [OF Next.prems, of c] e by simp
  then have "parsed_after_resolver False (snd (exec (k r) nxt l1))"
    using Next.IH [of "k r" l1] by (simp add: rangeI)
  then show ?case using e by simp
qed

lemma parsed_after_resolver_nextFns:
  "parsed_after_resolver False l \<Longrightarrow>
     parsed_after_resolver False (snd (nextFns p opts i fns nextOpts l))"
proof (induction fns arbitrary: i nextOpts l)
  case Nil
  then show ?case
    by (simp add: snd_wrapCallSafe parsed_after_resolver_resolverMiddleware)
next
  case (Cons fn fns)
  let ?c = "case nextOpts of Some c \<Rightarrow> c | None \<Rightarrow> ctx opts"
  have l: "parsed_after_resolver False (l @ [MiddlewareCall i ?c])"
    using Cons.prems by (simp add: parsed_after_resolver_append)
  have "parsed_after_resolver False
          (snd (exec (fn (opts\<lparr>ctx := ?c\<rparr>) (meta p)) (nextFns p opts (Suc i) fns) (l @ [MiddlewareCall i ?c])))"
    using l by (rule parsed_after_resolver_exec [rotated]) (rule Cons.IH)
  then show ?case by (simp add: snd_wrapCallSafe Let_def)
qed

lemma parsed_after_resolver_call: "parsed_after_resolver False (snd (call p opts))"
  unfolding snd_call by (rule parsed_after_resolver_nextFns) simp

text \<open>
  C2, as the code has it. When the input parser accepts the raw input and the resolver
  returns an output on which the output parser throws, the resolver's step of the chain
  fails with an \<^verbatim>\<open>INTERNAL_SERVER_ERROR\<close> whose message is \<^verbatim>\<open>Output validation failed\<close>
  and whose cause is the thrown value, after the resolver was invoked, whatever context
  reaches the step. In every call, whatever the middlewares do, the output parser is
  called only directly after the resolver. When every middleware returns the result of
  \<^verbatim>\<open>next\<close> as it is (in particular when there is none), \<^verbatim>\<open>call\<close> fails with that
  error.
\<close>

theorem output_rejected:
  assumes "parseInputFn p (rawInput opts) = Inr input"
    and "resolver p (opts\<lparr>ctx := c\<rparr>) input = Inr rawOutput"
    and "parseOutputFn p rawOutput = Inl cause"
  shows "resolverMiddleware p opts c l =
           (Inl (TRPCError INTERNAL_SERVER_ERROR (Some ''Output validation failed'') (Some cause)),
            l @ [ParseInputCall (rawInput opts), ResolverCall c input, ParseOutputCall rawOutput]) \<and>
         parsed_after_resolver False (snd (call q opts')) \<and>
         (c = last (contexts opts (meta p) (ctx opts) ns) \<longrightarrow>
            call (p\<lparr>middlewares := map returnsNext ns\<rparr>) opts =
              (Inl (TRPCError INTERNAL_SERVER_ERROR (Some ''Output validation failed'') (Some cause)),
               middlewareCalls 0 (butlast (contexts opts (meta p) (ctx opts) ns)) @
               [ParseInputCall (rawInput opts),
                ResolverCall (last (contexts opts (meta p) (ctx opts) ns)) input,
                ParseOutputCall rawOutput]))"
proof -
  let ?e = "TRPCError INTERNAL_SERVER_ERROR (Some ''Output validation failed'') (Some cause)"
  have step: "resolverMiddleware p opts c l =
      (Inl ?e, l @ [ParseInputCall (rawInput opts), ResolverCall c input, ParseOutputCall rawOutput])"
    using assms by (simp add: resolverMiddleware_def parseInput_def parseOutput_def)
  have whole: "call (p\<lparr>middlewares := map returnsNext ns\<rparr>) opts =
      (Inl ?e, middlewareCalls 0 (butlast (contexts opts (meta p) (ctx opts) ns)) @
         [ParseInputCall (rawInput opts),
          ResolverCall (last (contexts opts (meta p) (ctx opts) ns)) input,
          ParseOutputCall rawOutput])"
    if c: "c = last (contexts opts (meta p) (ctx opts) ns)"
  proof -
    let ?p = "p\<lparr>middlewares := map returnsNext ns\<rparr>"
    let ?c = "last (contexts opts (meta p) (ctx opts) ns)"
    have rm: "resolverMiddleware ?p opts ?c [] =
        (Inl ?e, [ParseInputCall (rawInput opts), ResolverCall ?c input, ParseOutputCall rawOutput])"
      using assms c by (simp add: resolverMiddleware_def parseInput_def parseOutput_def)
    have "fst (nextFns ?p opts 0 (middlewares ?p) None []) = Some (ResultError ?e)"
      by (simp add: nextFns_returnsNext_result rm fst_wrapCallSafe)
    then have a: "fst (call ?p opts) = Inl ?e" by (rule fst_call)
    have "snd (call ?p opts) =
        snd (nextFns ?p opts 0 (map callsNextOnce (map (\<lambda>n. (n, \<lambda>opts mt r. Inr r)) ns)) None [])"
      by (simp add: snd_call map_returnsNext)
    also have "\<dots> = middlewareCalls 0 (butlast (contexts opts (meta p) (ctx opts) ns)) @
        snd (resolverMiddleware ?p opts ?c [])"
      unfolding nextFns_callsNextOnce_log by (simp add: comp_def)
    finally have b: "snd (call ?p opts) =
        middlewareCalls 0 (butlast (contexts opts (meta p) (ctx opts) ns)) @
        [ParseInputCall (rawInput opts), ResolverCall ?c input, ParseOutputCall rawOutput]"
      by (simp add: rm)
    from a b show ?thesis by (simp add: prod_eq_iff)
  qed
  from step whole show ?thesis by (simp add: parsed_after_resolver_call)
qed

theorem output_rejected_witness:
  "parseInputFn strict (rawInput (greet (JString ''client''))) = Inr (JString ''client'') \<and>
   resolver strict (greet (JString ''client'')) (JString ''client'') = Inr (JObject [(''text'', JString ''client'')]) \<and>
   parseOutputFn strict (JObject [(''text'', JString ''client'')]) = Inl (Error ''Unexpected output'') \<and>
   JNull = last (contexts (greet (JString ''client'')) (meta strict) (ctx (greet (JString ''client'')))
      [as_user, as_before]) \<and>
   call (strict\<lparr>middlewares := [returnsNext as_user, returnsNext as_before]\<rparr>) (greet (JString ''client'')) =
     (Inl (TRPCError INTERNAL_SERVER_ERROR (Some ''Output validation failed'') (Some (Error ''Unexpected output''))),
      [MiddlewareCall 0 JNull, MiddlewareCall 1 (JString ''user''), ParseInputCall (JString ''client''),
       ResolverCall JNull (JString ''client''), ParseOutputCall (JObject [(''text'', JString ''client'')])]) \<and>
   parsed_after_resolver False
     (snd (call (strict\<lparr>middlewares := [fallback]\<rparr>) (greet (JString ''client''))))"
  using output_rejected [where p = strict and opts = "greet (JString ''client'')"
      and input = "JString ''client''" and c = JNull and ns = "[as_user, as_before]"
      and rawOutput = "JObject [(''text'', JString ''client'')]" and cause = "Error ''Unexpected output''"
      and l = "[]" and q = "strict\<lparr>middlewares := [fallback]\<rparr>" and opts' = "greet (JString ''client'')"]
  by (simp add: strict_def hello_def greet_def as_user_def as_before_def)

text \<open>
  A middleware that answers with a fallback when the rest of the chain failed: the
  output parser throws on the resolver's output, yet \<^verbatim>\<open>call\<close> returns.
\<close>

theorem output_rejected_behind_middleware:
  "parseInputFn strict (rawInput (greet (JString ''client''))) = Inr (JString ''client'') \<and>
   resolver strict (greet (JString ''client'')) (JString ''client'') = Inr (JObject [(''text'', JString ''client'')]) \<and>
   parseOutputFn strict (JObject [(''text'', JString ''client'')]) = Inl (Error ''Unexpected output'') \<and>
   call (strict\<lparr>middlewares := [fallback]\<rparr>) (greet (JString ''client'')) =
     (Inr JNull,
      [MiddlewareCall 0 JNull, ParseInputCall (JString ''client''),
       ResolverCall JNull (JString ''client''), ParseOutputCall (JObject [(''text'', JString ''client'')])])"
  by (simp add: strict_def hello_def greet_def fallback_def call_def wrapCallSafe_def
      resolverMiddleware_def parseInput_def parseOutput_def)

subsection \<open>The order of the calls\<close>

text \<open>
  C3, as the code has it. When every middleware calls \<^verbatim>\<open>next\<close> exactly once and the
  input parser accepts the raw input, \<^verbatim>\<open>call\<close> invokes each middleware once, in the
  configured order, and then the resolver once, as the innermost step.
\<close>

theorem call_order:
  assumes "parseInputFn p (rawInput opts) = Inr input"
  shows "filter is_step (snd (call (p\<lparr>middlewares := map callsNextOnce ms\<rparr>) opts)) =
           middlewareCalls 0 (butlast (contexts opts (meta p) (ctx opts) (map fst ms))) @
           [ResolverCall (last (contexts opts (meta p) (ctx opts) (map fst ms))) input]"
proof -
  let ?p = "p\<lparr>middlewares := map callsNextOnce ms\<rparr>"
  have r: "parseInputFn ?p (rawInput opts) = Inr input" using assms by simp
  have "snd (call ?p opts) = snd (nextFns ?p opts 0 (map callsNextOnce ms) None [])"
    by (simp add: snd_call)
  also have "\<dots> = middlewareCalls 0 (butlast (contexts opts (meta p) (ctx opts) (map fst ms))) @
      snd (resolverMiddleware ?p opts (last (contexts opts (meta p) (ctx opts) (map fst ms))) [])"
    by (simp add: nextFns_callsNextOnce_log)
  finally show ?thesis
    by (simp add: steps_middlewareCalls resolverMiddleware_steps [OF r])
qed

theorem call_order_witness:
  "parseInputFn hello (rawInput (greet (JString ''client''))) = Inr (JString ''client'') \<and>
   filter is_step (snd (call (hello\<lparr>middlewares :=
      map callsNextOnce [(as_user, \<lambda>opts mt r. Inr r), (as_before, \<lambda>opts mt r. Inl (Error ''late''))]\<rparr>)
      (greet (JString ''client'')))) =
     [MiddlewareCall 0 JNull, MiddlewareCall 1 (JString ''user''), ResolverCall JNull (JString ''client'')]"
  using call_order [of hello "greet (JString ''client'')" "JString ''client''"
      "[(as_user, \<lambda>opts mt r. Inr r), (as_before, \<lambda>opts mt r. Inl (Error ''late''))]"]
  by (simp add: hello_def greet_def as_user_def as_before_def)

text \<open>
  A middleware that throws before it calls \<^verbatim>\<open>next\<close>: the input is valid, yet neither
  the second middleware nor the resolver is invoked.
\<close>

theorem call_order_short_circuit:
  "parseInputFn hello (rawInput (greet (JString ''client''))) = Inr (JString ''client'') \<and>
   call (hello\<lparr>middlewares := [authenticated, returnsNext as_user]\<rparr>) (greet (JString ''client'')) =
     (Inl (TRPCError INTERNAL_SERVER_ERROR None (Some (Error ''Not authenticated''))),
      [MiddlewareCall 0 JNull])"
  by (simp add: hello_def greet_def authenticated_def call_def wrapCallSafe_def)

end
